theory Spec2Isabelle
  imports Complex_Main
begin

section \<open>JavaScript values as the gateway sees them\<close>

text \<open>
  Every inbound message goes through \<open>JSON.parse\<close>; the gateway then reads properties
  of the parsed value. A parsed value is modelled by the datatype below. Objects are
  association lists in key order (a JavaScript object keeps insertion order); a property
  read takes the first binding. A number is kept as the rational value of its token;
  \<open>JSON.parse\<close> makes of it the nearest double, which is what every reading of a number
  below takes (\<open>toDouble\<close>). Strings are lists of 8-bit characters (Latin-1 code units).
\<close>

datatype json =
    JNull
  | JBool bool
  | JNum rat
  | JStr string
  | JArr "json list"
  | JObj "(string \<times> json) list"

subsection \<open>Numbers\<close>

text \<open>
  The Number values \<open>JSON.parse\<close> can return: the finite doubles, by their value (\<open>-0\<close> is
  not told from \<open>0\<close>; nothing in the code does), and the two infinities, which a token
  past the largest double parses to. There is no \<open>NaN\<close> among them.
\<close>

datatype number = Finite rat | PosInf | NegInf

text \<open>\<open>2^e\<close> for an integer \<open>e\<close>, and the number of binary digits of a positive integer.\<close>

definition pow2 :: "int \<Rightarrow> rat" where
  "pow2 e = (if 0 \<le> e then 2 ^ nat e else 1 / 2 ^ nat (- e))"

function bitLength :: "int \<Rightarrow> nat" where
  "bitLength n = (if n \<le> 0 then 0 else Suc (bitLength (n div 2)))"
  by auto
termination
  by (relation "measure nat") auto

text \<open>For \<open>a > 0\<close>, the integer \<open>k\<close> with \<open>2^k \<le> a < 2^(k+1)\<close>.\<close>

definition floorLog2 :: "rat \<Rightarrow> int" where
  "floorLog2 a =
     (if 1 \<le> a then int (bitLength \<lfloor>a\<rfloor>) - 1
      else - int (bitLength (\<lceil>1 / a\<rceil> - 1)))"

text \<open>The nearest integer, a tie going to the even one.\<close>

definition roundHalfEven :: "rat \<Rightarrow> int" where
  "roundHalfEven x =
     (let f = \<lfloor>x\<rfloor>; d = x - of_int f
      in if d < 1 / 2 then f else if 1 / 2 < d then f + 1 else if even f then f else f + 1)"

text \<open>
  IEEE 754 binary64 rounding to nearest, ties to even: a significand of 53 bits at the
  exponent of the value, of fewer bits below the smallest normal exponent (steps of
  \<open>2^-1074\<close>), and an infinity once the rounded value reaches \<open>2^1024\<close>.
\<close>

definition toDouble :: "rat \<Rightarrow> number" where
  "toDouble q =
     (if q = 0 then Finite 0
      else
        (let a = \<bar>q\<bar>;
             e = max (floorLog2 a - 52) (- 1074);
             r = of_int (roundHalfEven (a / pow2 e)) * pow2 e
         in if pow2 1024 \<le> r then (if 0 < q then PosInf else NegInf)
            else Finite (if 0 < q then r else - r)))"


fun numLess :: "number \<Rightarrow> number \<Rightarrow> bool" where
  "numLess (Finite a) (Finite b) = (a < b)"
| "numLess (Finite a) PosInf = True"
| "numLess NegInf (Finite b) = True"
| "numLess NegInf PosInf = True"
| "numLess _ _ = False"

subsection \<open>Property reads, truthiness, strings\<close>

text \<open>\<open>v.k\<close> for a non-null value: \<open>None\<close> is JavaScript's \<open>undefined\<close>.\<close>

fun getProp :: "json \<Rightarrow> string \<Rightarrow> json option" where
  "getProp (JObj kvs) k = map_of kvs k"
| "getProp _ k = None"

text \<open>\<open>a ?? b\<close>: the left operand unless it is \<open>undefined\<close> or \<open>null\<close>.\<close>

fun nullish :: "json option \<Rightarrow> json \<Rightarrow> json" where
  "nullish None d = d"
| "nullish (Some JNull) d = d"
| "nullish (Some v) d = v"

text \<open>\<open>v?.k\<close> on a value that may be \<open>undefined\<close> or \<open>null\<close>.\<close>

fun optProp :: "json option \<Rightarrow> string \<Rightarrow> json option" where
  "optProp None k = None"
| "optProp (Some JNull) k = None"
| "optProp (Some v) k = getProp v k"


text \<open>
  \<open>String.prototype.trim\<close> removes white space and line terminators from both ends;
  among 8-bit code units these are TAB, LF, VT, FF, CR, SPACE and NBSP.
\<close>

definition isWhiteSpace :: "char \<Rightarrow> bool" where
  "isWhiteSpace c = ((of_char c :: nat) \<in> {9, 10, 11, 12, 13, 32, 160})"

definition trim :: "string \<Rightarrow> string" where
  "trim s = rev (dropWhile isWhiteSpace (rev (dropWhile isWhiteSpace s)))"

text \<open>\<open>String.prototype.toLowerCase\<close> on 8-bit code units.\<close>

definition lowerChar :: "char \<Rightarrow> char" where
  "lowerChar c =
     (let n = (of_char c :: nat) in
      if (65 \<le> n \<and> n \<le> 90) \<or> (192 \<le> n \<and> n \<le> 222 \<and> n \<noteq> 215)
      then char_of (n + 32) else c)"

definition toLowerCase :: "string \<Rightarrow> string" where
  "toLowerCase s = map lowerChar s"

text \<open>Decimal digits of an integer.\<close>

fun showNat :: "nat \<Rightarrow> string" where
  "showNat n =
     (if n < 10 then [char_of (48 + n)]
      else showNat (n div 10) @ [char_of (48 + n mod 10)])"

definition showInt :: "int \<Rightarrow> string" where
  "showInt i = (if i < 0 then CHR ''-'' # showNat (nat (- i)) else showNat (nat i))"

fun joinWith :: "string \<Rightarrow> string list \<Rightarrow> string" where
  "joinWith sep [] = []"
| "joinWith sep [x] = x"
| "joinWith sep (x # y # ys) = x @ sep @ joinWith sep (y # ys)"

section \<open>The process and its surroundings\<close>

text \<open>
  What the code reads from outside itself: the host name, the network interfaces and the
  environment variables, and three sources that answer differently at each call
  (\<open>Date.now()\<close>, \<open>randomUUID()\<close>, \<open>process.uptime()\<close>). The \<open>k\<close>-th reading the process
  takes from outside is answered by \<open>clock k\<close>, \<open>uuid k\<close> or \<open>uptimeMs k\<close>, whichever
  source it asks. \<open>errorsText\<close> is the text \<open>ajv.errorsText\<close> renders for a value a
  schema rejected (the schema named by its first argument). \<open>numberToString\<close> is the
  engine's rendering of a Number as a string (\<open>Number::toString\<close>, the shortest digits
  that read back as the same double, in exponent form from \<open>1e21\<close>); the properties below
  hold whatever it prints.
\<close>

record iface =
  family :: string
  internal :: bool
  address :: string

record world =
  hostname :: string
  networkInterfaces :: "(string \<times> iface list) list"
  CLAWDIS_VERSION :: "string option"
  npm_package_version :: "string option"
  CLAWDIS_GATEWAY_TOKEN :: "string option"
  GIT_COMMIT :: "string option"
  clock :: "nat \<Rightarrow> int"
  uuid :: "nat \<Rightarrow> string"
  uptimeMs :: "nat \<Rightarrow> int"
  errorsText :: "string \<Rightarrow> json \<Rightarrow> string"
  numberToString :: "number \<Rightarrow> string"

subsection \<open>\<open>String(v)\<close> of a parsed value\<close>

text \<open>
  \<open>String(v)\<close>, which is \<open>ToString(v)\<close> on these values. A string is itself. An array is
  its elements joined by commas, \<open>null\<close> printed as nothing and every other element
  converted in turn. An object parsed from JSON has \<open>Object.prototype\<close> as its
  prototype: without an own property \<open>toString\<close> the inherited method answers
  \<open>[object Object]\<close>; with one, that property is a parsed value, so not callable, and
  \<open>valueOf\<close> (own and not callable, or inherited and returning the object) gives no
  primitive either: the conversion throws a \<open>TypeError\<close>. \<open>None\<close> is that throw, and
  \<open>typeErrorText\<close> what \<open>String(err)\<close> makes of the error under Node.
\<close>

fun String_js :: "world \<Rightarrow> json \<Rightarrow> string option"
  and joined :: "world \<Rightarrow> json list \<Rightarrow> string list option" where
  "String_js w JNull = Some ''null''"
| "String_js w (JBool b) = Some (if b then ''true'' else ''false'')"
| "String_js w (JNum q) = Some (numberToString w (toDouble q))"
| "String_js w (JStr s) = Some s"
| "String_js w (JArr xs) = map_option (joinWith '','') (joined w xs)"
| "String_js w (JObj kvs) =
     (if map_of kvs ''toString'' = None then Some ''[object Object]'' else None)"
| "joined w [] = Some []"
| "joined w (x # xs) =
     (case (if x = JNull then Some [] else String_js w x) of
        None \<Rightarrow> None
      | Some a \<Rightarrow> (case joined w xs of None \<Rightarrow> None | Some as \<Rightarrow> Some (a # as)))"

definition typeErrorText :: string where
  "typeErrorText = ''TypeError: Cannot convert object to primitive value''"

subsection \<open>Presence entries (system-presence.ts)\<close>

record SystemPresence =
  p_host :: "string option"
  p_ip :: "string option"
  p_version :: "string option"
  p_lastInputSeconds :: "int option"
  p_mode :: "string option"
  p_reason :: "string option"
  p_instanceId :: "string option"
  p_text :: string
  p_ts :: int

text \<open>
  A \<open>Partial<SystemPresence>\<close> argument: for each property, \<open>None\<close> when the object
  literal does not mention it, \<open>Some v\<close> when it does (\<open>v\<close> itself may be \<open>undefined\<close>).
\<close>

record PresencePatch =
  u_host :: "string option option"
  u_version :: "string option option"
  u_mode :: "string option option"
  u_reason :: "string option option"
  u_instanceId :: "string option option"
  u_text :: "string option option"

definition TTL_MS :: int where
  "TTL_MS = 5 * 60 * 1000"

definition MAX_ENTRIES :: nat where
  "MAX_ENTRIES = 200"

subsection \<open>A JavaScript \<open>Map\<close>: bindings in insertion order\<close>

definition map_get :: "('k \<times> 'v) list \<Rightarrow> 'k \<Rightarrow> 'v option" where
  "map_get m k = map_of m k"

fun map_set :: "'k \<Rightarrow> 'v \<Rightarrow> ('k \<times> 'v) list \<Rightarrow> ('k \<times> 'v) list" where
  "map_set k v [] = [(k, v)]"
| "map_set k v ((k', v') # m) =
     (if k' = k then (k, v) # m else (k', v') # map_set k v m)"

definition map_delete :: "'k \<Rightarrow> ('k \<times> 'v) list \<Rightarrow> ('k \<times> 'v) list" where
  "map_delete k m = filter (\<lambda>kv. fst kv \<noteq> k) m"

section \<open>Frames, sockets and the process state (server.ts)\<close>

datatype ErrorCode = NOT_LINKED | AGENT_TIMEOUT | INVALID_REQUEST | UNAVAILABLE

record ErrorShape =
  code :: ErrorCode
  message :: string

definition errorShape :: "ErrorCode \<Rightarrow> string \<Rightarrow> ErrorShape" where
  "errorShape c m = \<lparr>code = c, message = m\<rparr>"

record StateVersion =
  sv_presence :: nat
  sv_health :: nat

text \<open>
  The payloads the server builds, one constructor per object literal of the source;
  \<open>Opaque\<close> is a value handed through unchanged (a port's answer, an agent bus event).
\<close>

datatype payload =
    Opaque json
  | PresenceList "SystemPresence list"
  | PresenceEvent "SystemPresence list"
  | OkTrue
  | SendResult string string string
  | AgentAccepted string
  | AgentResult string string string
  | TickPayload int
  | ShutdownPayload

record Snapshot =
  sn_presence :: "SystemPresence list"
  sn_health :: json
  sn_stateVersion :: StateVersion
  sn_uptimeMs :: int

record HelloOk =
  ho_protocol :: int
  ho_version :: string
  ho_commit :: "string option"
  ho_host :: string
  ho_connId :: string
  ho_methods :: "string list"
  ho_events :: "string list"
  ho_snapshot :: Snapshot
  ho_maxPayload :: nat
  ho_maxBufferedBytes :: nat
  ho_tickIntervalMs :: nat

text \<open>
  A frame before \<open>JSON.stringify\<close>: \<open>ResFrame id ok payload error\<close>,
  \<open>EventFrame event payload seq stateVersion\<close>, \<open>HelloErrorFrame reason expectedProtocol\<close>.
\<close>

datatype frame =
    HelloOkFrame HelloOk
  | HelloErrorFrame string "int option"
  | ResFrame json bool "payload option" "ErrorShape option"
  | EventFrame string payload nat "StateVersion option"

text \<open>
  What the server did to a socket, in order: \<open>socket.send(frame)\<close> and
  \<open>socket.close(code, reason)\<close>.
\<close>

datatype sock_op = Sent frame | CloseCall nat "string option"

text \<open>
  One accepted socket with the variables its connection handler closes over. \<open>client\<close>
  holds the accepted hello (\<open>None\<close> is \<open>null\<close>); \<open>handshakeTimer\<close>, \<open>onError\<close> and
  \<open>onClose\<close> say whether the timer is armed and the \<open>once\<close> listeners still registered;
  \<open>bufferedAmount\<close> is the socket's, as the transport reports it.
\<close>

record conn =
  connId :: string
  client :: "json option"
  closed :: bool
  handshakeTimer :: bool
  onError :: bool
  onClose :: bool
  bufferedAmount :: nat
  ops :: "sock_op list"

record DedupeEntry =
  d_ts :: int
  d_ok :: bool
  d_payload :: "payload option"
  d_error :: "ErrorShape option"

record AgentOpts =
  a_message :: string
  a_to :: "string option"
  a_sessionId :: "string option"
  a_thinking :: "string option"
  a_deliver :: "bool option"
  a_timeout :: "string option"

text \<open>Calls into the collaborators, in the order the process made them.\<close>

datatype port_call =
    GetHealthSnapshot
  | GetStatusSummary
  | EnqueueSystemEvent string
  | SendMessageWhatsApp string string "string option"
  | AgentCommand AgentOpts
  | LogError string

text \<open>
  A handler suspended at an \<open>await\<close>, with what it still needs: the connection, the
  request id, and for \<open>send\<close> and \<open>agent\<close> the idempotency key and the recipient or run id.
\<close>

datatype cont =
    HelloCont nat Snapshot
  | HealthCont nat string
  | StatusCont nat string
  | SendCont nat string string string
  | AgentCont nat string string string

record SendMessageResult =
  messageId :: string
  toJid :: "string option"

text \<open>How an awaited promise settles: its value, or \<open>String(err)\<close> of the rejection.\<close>

datatype 'a outcome = Resolved 'a | Rejected string

datatype resumption =
    HealthDone "json outcome"
  | StatusDone "json outcome"
  | SendDone "SendMessageResult outcome"
  | AgentDone "unit outcome"

text \<open>
  The module-level variables of server.ts and system-presence.ts, the server's client
  set (connections by index, in insertion order), its sockets, the suspended handlers,
  the calls made so far, and the number of outside readings taken so far.
\<close>

record proc =
  reads :: nat
  entries :: "(string \<times> SystemPresence) list"
  presenceVersion :: nat
  healthVersion :: nat
  seq :: nat
  dedupe :: "(string \<times> DedupeEntry) list"
  clients :: "nat list"
  conns :: "conn list"
  pending :: "cont list"
  calls :: "port_call list"
  intervals :: bool
  agentSub :: bool
  listening :: bool

definition PROTOCOL_VERSION :: int where
  "PROTOCOL_VERSION = 1"

definition METHODS :: "string list" where
  "METHODS = [''health'', ''status'', ''system-presence'', ''system-event'',
              ''set-heartbeats'', ''send'', ''agent'']"

definition EVENTS :: "string list" where
  "EVENTS = [''agent'', ''presence'', ''tick'', ''shutdown'']"

definition MAX_PAYLOAD_BYTES :: nat where
  "MAX_PAYLOAD_BYTES = 512 * 1024"

definition MAX_BUFFERED_BYTES :: nat where
  "MAX_BUFFERED_BYTES = 1572864"

definition TICK_INTERVAL_MS :: nat where
  "TICK_INTERVAL_MS = 30000"

definition DEDUPE_TTL_MS :: int where
  "DEDUPE_TTL_MS = 5 * 60000"

definition DEDUPE_MAX :: nat where
  "DEDUPE_MAX = 1000"

subsection \<open>Outside readings\<close>

definition Date_now :: "world \<Rightarrow> proc \<Rightarrow> int \<times> proc" where
  "Date_now w s = (clock w (reads s), s\<lparr>reads := Suc (reads s)\<rparr>)"

definition randomUUID :: "world \<Rightarrow> proc \<Rightarrow> string \<times> proc" where
  "randomUUID w s = (uuid w (reads s), s\<lparr>reads := Suc (reads s)\<rparr>)"

definition process_uptime :: "world \<Rightarrow> proc \<Rightarrow> int \<times> proc" where
  "process_uptime w s = (uptimeMs w (reads s), s\<lparr>reads := Suc (reads s)\<rparr>)"

section \<open>The presence registry (system-presence.ts)\<close>

definition ipv4Address :: "iface list \<Rightarrow> string option" where
  "ipv4Address l =
     (case List.find (\<lambda>n. family n = ''IPv4'' \<and> \<not> internal n) l of
        None \<Rightarrow> None
      | Some e \<Rightarrow> if address e \<noteq> [] then Some (address e) else None)"

fun firstAddress :: "iface list list \<Rightarrow> string option" where
  "firstAddress [] = None"
| "firstAddress (l # ls) =
     (case ipv4Address l of Some a \<Rightarrow> Some a | None \<Rightarrow> firstAddress ls)"

definition pick :: "(string \<times> iface list) list \<Rightarrow> string list \<Rightarrow> string option" where
  "pick nets names =
     (case firstAddress (List.map_filter (map_of nets) names) of
        Some a \<Rightarrow> Some a
      | None \<Rightarrow> firstAddress (map snd nets))"

definition resolvePrimaryIPv4 :: "world \<Rightarrow> string" where
  "resolvePrimaryIPv4 w =
     (case pick (networkInterfaces w) [''en0'', ''eth0''] of
        Some a \<Rightarrow> a
      | None \<Rightarrow> hostname w)"

definition envVersion :: "world \<Rightarrow> string \<Rightarrow> string" where
  "envVersion w dflt =
     (case CLAWDIS_VERSION w of
        Some v \<Rightarrow> v
      | None \<Rightarrow> (case npm_package_version w of Some v \<Rightarrow> v | None \<Rightarrow> dflt))"

text \<open>The middle dot of the presence texts (code unit 183).\<close>

definition middot :: string where
  "middot = [char_of (183 :: nat)]"

definition selfKey :: "world \<Rightarrow> string" where
  "selfKey w = toLowerCase (hostname w)"

definition selfEntry :: "world \<Rightarrow> int \<Rightarrow> SystemPresence" where
  "selfEntry w t =
     (let host = hostname w;
          ip = resolvePrimaryIPv4 w;
          version = envVersion w ''unknown''
      in \<lparr>p_host = Some host, p_ip = Some ip, p_version = Some version,
          p_lastInputSeconds = None, p_mode = Some ''gateway'', p_reason = Some ''self'',
          p_instanceId = None,
          p_text = ''Gateway: '' @ host @ (if ip \<noteq> [] then '' ('' @ ip @ '')'' else [])
                   @ '' '' @ middot @ '' app '' @ version @ '' '' @ middot
                   @ '' mode gateway '' @ middot @ '' reason self'',
          p_ts = t\<rparr>)"

definition initSelfPresence :: "world \<Rightarrow> proc \<Rightarrow> proc" where
  "initSelfPresence w s =
     (let (t, s1) = Date_now w s
      in s1\<lparr>entries := map_set (selfKey w) (selfEntry w t) (entries s1)\<rparr>)"

definition ensureSelfPresence :: "world \<Rightarrow> proc \<Rightarrow> proc" where
  "ensureSelfPresence w s = (if entries s = [] then initSelfPresence w s else s)"

definition touchSelfPresence :: "world \<Rightarrow> proc \<Rightarrow> proc" where
  "touchSelfPresence w s =
     (case map_get (entries s) (selfKey w) of
        Some existing \<Rightarrow>
          (let (t, s1) = Date_now w s
           in s1\<lparr>entries := map_set (selfKey w) (existing\<lparr>p_ts := t\<rparr>) (entries s1)\<rparr>)
      | None \<Rightarrow> initSelfPresence w s)"

text \<open>\<open>{...existing, ...presence}\<close> for one property.\<close>

definition spread :: "'a option option \<Rightarrow> 'a option \<Rightarrow> 'a option" where
  "spread u old = (case u of Some v \<Rightarrow> v | None \<Rightarrow> old)"

text \<open>\<open>presence.f ?? existing.f ?? "unknown"\<close>.\<close>

definition orUnknown :: "string option option \<Rightarrow> string option \<Rightarrow> string" where
  "orUnknown u old =
     (case u of
        Some (Some v) \<Rightarrow> v
      | _ \<Rightarrow> (case old of Some v \<Rightarrow> v | None \<Rightarrow> ''unknown''))"

definition upsertPresence :: "world \<Rightarrow> string \<Rightarrow> PresencePatch \<Rightarrow> proc \<Rightarrow> proc" where
  "upsertPresence w key presence s =
     (let s1 = ensureSelfPresence w s;
          existing = map_get (entries s1) key;
          (t, s2) = Date_now w s1;
          newText = (case u_text presence of Some (Some x) \<Rightarrow> x | _ \<Rightarrow> []);
          oldText = (case existing of Some e \<Rightarrow> p_text e | None \<Rightarrow> []);
          merged =
            \<lparr>p_host = spread (u_host presence) (Option.bind existing p_host),
             p_ip = Option.bind existing p_ip,
             p_version = spread (u_version presence) (Option.bind existing p_version),
             p_lastInputSeconds = Option.bind existing p_lastInputSeconds,
             p_mode = spread (u_mode presence) (Option.bind existing p_mode),
             p_reason = spread (u_reason presence) (Option.bind existing p_reason),
             p_instanceId = spread (u_instanceId presence) (Option.bind existing p_instanceId),
             p_text =
               (if newText \<noteq> [] then newText
                else if oldText \<noteq> [] then oldText
                else ''Node: '' @ orUnknown (u_host presence) (Option.bind existing p_host)
                     @ '' '' @ middot @ '' mode ''
                     @ orUnknown (u_mode presence) (Option.bind existing p_mode)),
             p_ts = t\<rparr>
      in s2\<lparr>entries := map_set key merged (entries s2)\<rparr>)"

text \<open>
  \<open>listSystemPresence\<close>: prune what is older than the TTL, drop the oldest down to
  \<open>MAX_ENTRIES\<close> (\<open>toDrop\<close> is computed once, before the loop), touch the self entry, and
  return the values sorted by \<open>ts\<close>, newest first (\<open>Array.prototype.sort\<close> is stable).
\<close>

definition listSystemPresence :: "world \<Rightarrow> proc \<Rightarrow> SystemPresence list \<times> proc" where
  "listSystemPresence w s =
     (let s1 = ensureSelfPresence w s;
          (now, s2) = Date_now w s1;
          s3 = s2\<lparr>entries := filter (\<lambda>kv. \<not> (now - p_ts (snd kv) > TTL_MS)) (entries s2)\<rparr>;
          s4 = (if length (entries s3) > MAX_ENTRIES then
                  (let sorted = sort_key (\<lambda>kv. p_ts (snd kv)) (entries s3);
                       toDrop = length (entries s3) - MAX_ENTRIES
                   in s3\<lparr>entries := fold (\<lambda>kv m. map_delete (fst kv) m)
                                          (take toDrop sorted) (entries s3)\<rparr>)
                else s3);
          s5 = touchSelfPresence w s4
      in (sort_key (\<lambda>v. - p_ts v) (map snd (entries s5)), s5))"

section \<open>The protocol schemas (schema.ts) as validators\<close>

text \<open>
  The validators ajv compiles from the TypeBox schemas. Every object schema has
  \<open>additionalProperties: false\<close>; a property is required unless \<open>Type.Optional\<close>.
\<close>

fun isString :: "json \<Rightarrow> bool" where
  "isString (JStr s) = True"
| "isString _ = False"

fun isNonEmptyString :: "json \<Rightarrow> bool" where
  "isNonEmptyString (JStr s) = (s \<noteq> [])"
| "isNonEmptyString _ = False"

fun isBoolean :: "json \<Rightarrow> bool" where
  "isBoolean (JBool b) = True"
| "isBoolean _ = False"

text \<open>
  \<open>Type.Integer({minimum: m})\<close>. The instance is built with \<open>strict: false\<close>, so ajv tests
  an integer by \<open>!(data % 1) && !isNaN(data)\<close> without \<open>isFinite\<close>: an infinity passes
  that test (\<open>Infinity % 1\<close> is \<open>NaN\<close>), and \<open>minimum\<close> then rejects the negative one.
\<close>

fun isIntegerMin :: "int \<Rightarrow> json \<Rightarrow> bool" where
  "isIntegerMin m (JNum q) =
     (case toDouble q of
        Finite r \<Rightarrow> r = of_int \<lfloor>r\<rfloor> \<and> of_int m \<le> r
      | PosInf \<Rightarrow> True
      | NegInf \<Rightarrow> False)"
| "isIntegerMin m _ = False"

fun isArrayOf :: "(json \<Rightarrow> bool) \<Rightarrow> json \<Rightarrow> bool" where
  "isArrayOf P (JArr xs) = list_all P xs"
| "isArrayOf P _ = False"

definition required :: "(json \<Rightarrow> bool) \<Rightarrow> json option \<Rightarrow> bool" where
  "required P v = (case v of Some x \<Rightarrow> P x | None \<Rightarrow> False)"

definition optional :: "(json \<Rightarrow> bool) \<Rightarrow> json option \<Rightarrow> bool" where
  "optional P v = (case v of Some x \<Rightarrow> P x | None \<Rightarrow> True)"

text \<open>An object whose keys are all among \<open>ks\<close>.\<close>

fun isObjectWith :: "string list \<Rightarrow> json \<Rightarrow> bool" where
  "isObjectWith ks (JObj kvs) = list_all (\<lambda>kv. List.member ks (fst kv)) kvs"
| "isObjectWith ks _ = False"

definition validateRequestFrame :: "json \<Rightarrow> bool" where
  "validateRequestFrame v =
     (isObjectWith [''type'', ''id'', ''method'', ''params''] v
      \<and> getProp v ''type'' = Some (JStr ''req'')
      \<and> required isNonEmptyString (getProp v ''id'')
      \<and> required isNonEmptyString (getProp v ''method''))"

definition validateSendParams :: "json \<Rightarrow> bool" where
  "validateSendParams v =
     (isObjectWith [''to'', ''message'', ''mediaUrl'', ''provider'', ''idempotencyKey''] v
      \<and> required isNonEmptyString (getProp v ''to'')
      \<and> required isNonEmptyString (getProp v ''message'')
      \<and> optional isString (getProp v ''mediaUrl'')
      \<and> optional isString (getProp v ''provider'')
      \<and> required isNonEmptyString (getProp v ''idempotencyKey''))"

definition validateAgentParams :: "json \<Rightarrow> bool" where
  "validateAgentParams v =
     (isObjectWith [''message'', ''to'', ''sessionId'', ''thinking'', ''deliver'',
                    ''timeout'', ''idempotencyKey''] v
      \<and> required isNonEmptyString (getProp v ''message'')
      \<and> optional isString (getProp v ''to'')
      \<and> optional isString (getProp v ''sessionId'')
      \<and> optional isString (getProp v ''thinking'')
      \<and> optional isBoolean (getProp v ''deliver'')
      \<and> optional (isIntegerMin 0) (getProp v ''timeout'')
      \<and> required isNonEmptyString (getProp v ''idempotencyKey''))"

definition validateClientDescriptor :: "json \<Rightarrow> bool" where
  "validateClientDescriptor v =
     (isObjectWith [''name'', ''version'', ''platform'', ''mode'', ''instanceId''] v
      \<and> required isNonEmptyString (getProp v ''name'')
      \<and> required isNonEmptyString (getProp v ''version'')
      \<and> required isNonEmptyString (getProp v ''platform'')
      \<and> required isNonEmptyString (getProp v ''mode'')
      \<and> optional isNonEmptyString (getProp v ''instanceId''))"

definition validateAuth :: "json \<Rightarrow> bool" where
  "validateAuth v = (isObjectWith [''token''] v \<and> optional isString (getProp v ''token''))"

definition validateHello :: "json \<Rightarrow> bool" where
  "validateHello v =
     (isObjectWith [''type'', ''minProtocol'', ''maxProtocol'', ''client'', ''caps'',
                    ''auth'', ''locale'', ''userAgent''] v
      \<and> getProp v ''type'' = Some (JStr ''hello'')
      \<and> required (isIntegerMin 1) (getProp v ''minProtocol'')
      \<and> required (isIntegerMin 1) (getProp v ''maxProtocol'')
      \<and> required validateClientDescriptor (getProp v ''client'')
      \<and> optional (isArrayOf isNonEmptyString) (getProp v ''caps'')
      \<and> optional validateAuth (getProp v ''auth'')
      \<and> optional isString (getProp v ''locale'')
      \<and> optional isString (getProp v ''userAgent''))"

text \<open>Reading a property of a validated value at its schema's type.\<close>

fun optStr :: "json option \<Rightarrow> string option" where
  "optStr (Some (JStr s)) = Some s"
| "optStr _ = None"

fun optBool :: "json option \<Rightarrow> bool option" where
  "optBool (Some (JBool b)) = Some b"
| "optBool _ = None"

fun optNum :: "json option \<Rightarrow> number option" where
  "optNum (Some (JNum q)) = Some (toDouble q)"
| "optNum _ = None"

definition strProp :: "json \<Rightarrow> string \<Rightarrow> string" where
  "strProp v k = (case optStr (getProp v k) of Some s \<Rightarrow> s | None \<Rightarrow> [])"

definition numProp :: "json \<Rightarrow> string \<Rightarrow> number" where
  "numProp v k = (case optNum (getProp v k) of Some n \<Rightarrow> n | None \<Rightarrow> Finite 0)"

text \<open>\<open>a || b\<close> on an optional string: \<open>undefined\<close> and the empty string are falsy.\<close>

definition orElse :: "string option \<Rightarrow> string \<Rightarrow> string" where
  "orElse a b = (case a of Some x \<Rightarrow> if x \<noteq> [] then x else b | None \<Rightarrow> b)"

section \<open>The gateway server (server.ts)\<close>

subsection \<open>Sockets and the connection's closures\<close>

definition updConn :: "nat \<Rightarrow> (conn \<Rightarrow> conn) \<Rightarrow> proc \<Rightarrow> proc" where
  "updConn i f s = s\<lparr>conns := (conns s)[i := f (conns s ! i)]\<rparr>"

definition socketSend :: "nat \<Rightarrow> frame \<Rightarrow> proc \<Rightarrow> proc" where
  "socketSend i f s = updConn i (\<lambda>c. c\<lparr>ops := ops c @ [Sent f]\<rparr>) s"

definition socketClose :: "nat \<Rightarrow> nat \<Rightarrow> string option \<Rightarrow> proc \<Rightarrow> proc" where
  "socketClose i cd rs s = updConn i (\<lambda>c. c\<lparr>ops := ops c @ [CloseCall cd rs]\<rparr>) s"

text \<open>The closure \<open>send\<close>: \<open>socket.send(JSON.stringify(obj))\<close>, errors ignored.\<close>

definition send :: "nat \<Rightarrow> frame \<Rightarrow> proc \<Rightarrow> proc" where
  "send i f s = socketSend i f s"

definition respond ::
  "nat \<Rightarrow> string \<Rightarrow> bool \<Rightarrow> payload option \<Rightarrow> ErrorShape option \<Rightarrow> proc \<Rightarrow> proc" where
  "respond i rid ok pl er s = send i (ResFrame (JStr rid) ok pl er) s"

text \<open>The closure \<open>close\<close> of one connection.\<close>

definition close :: "nat \<Rightarrow> proc \<Rightarrow> proc" where
  "close i s =
     (if closed (conns s ! i) then s
      else
        (let s1 = updConn i (\<lambda>c. c\<lparr>closed := True, handshakeTimer := False\<rparr>) s;
             s2 = (if client (conns s1 ! i) \<noteq> None
                   then s1\<lparr>clients := removeAll i (clients s1)\<rparr> else s1)
         in socketClose i 1000 None s2))"

definition logError :: "string \<Rightarrow> proc \<Rightarrow> proc" where
  "logError m s = s\<lparr>calls := calls s @ [LogError m]\<rparr>"

subsection \<open>broadcast\<close>

text \<open>
  One pass of the loop body of \<open>broadcast\<close> for the client \<open>i\<close>: skip a slow client when
  \<open>dropIfSlow\<close> is set, close a slow client otherwise, send to the others.
\<close>

definition deliver :: "frame \<Rightarrow> bool \<Rightarrow> nat \<Rightarrow> proc \<Rightarrow> proc" where
  "deliver f dropIfSlow i s =
     (let slow = bufferedAmount (conns s ! i) > MAX_BUFFERED_BYTES
      in if slow \<and> dropIfSlow then s
         else if slow then socketClose i 1008 (Some ''slow consumer'') s
         else socketSend i f s)"

definition broadcast ::
  "string \<Rightarrow> payload \<Rightarrow> bool \<Rightarrow> StateVersion option \<Rightarrow> proc \<Rightarrow> proc" where
  "broadcast ev pl dropIfSlow sv s =
     (let s1 = s\<lparr>seq := seq s + 1\<rparr>;
          f = EventFrame ev pl (seq s1) sv
      in fold (deliver f dropIfSlow) (clients s1) s1)"

subsection \<open>The dedupe cache and its sweep\<close>

text \<open>
  The eviction loop of the sweep, as written:
  \<open>for (let i = 0; i < dedupe.size - DEDUPE_MAX; i++) dedupe.delete(entries[i][0])\<close>.
  The bound is read from the map at every test. \<open>None\<close> is the \<open>TypeError\<close> of reading
  \<open>entries[i][0]\<close> past the end of the array \<open>arr\<close> (the source's sorted \<open>entries\<close>).
\<close>

function evictLoop ::
  "nat \<Rightarrow> (string \<times> DedupeEntry) list \<Rightarrow> (string \<times> DedupeEntry) list
     \<Rightarrow> (string \<times> DedupeEntry) list option" where
  "evictLoop i arr d =
     (if int i < int (length d) - int DEDUPE_MAX then
        (if i < length arr
         then evictLoop (Suc i) arr (map_delete (fst (arr ! i)) d)
         else None)
      else Some d)"
  by pat_completeness auto
termination
  by (relation "measure (\<lambda>(i, arr, d). length d - i)")
     (auto simp: map_delete_def intro: le_less_trans[OF diff_le_mono[OF length_filter_le]])

definition dedupeCleanup ::
  "int \<Rightarrow> (string \<times> DedupeEntry) list \<Rightarrow> (string \<times> DedupeEntry) list option" where
  "dedupeCleanup now d =
     (let d1 = filter (\<lambda>kv. \<not> (now - d_ts (snd kv) > DEDUPE_TTL_MS)) d
      in if length d1 > DEDUPE_MAX
         then evictLoop 0 (sort_key (\<lambda>kv. d_ts (snd kv)) d1) d1
         else Some d1)"

subsection \<open>The handshake\<close>

definition buildSnapshot :: "world \<Rightarrow> proc \<Rightarrow> Snapshot \<times> proc" where
  "buildSnapshot w s =
     (let (presence, s1) = listSystemPresence w s;
          (up, s2) = process_uptime w s1
      in (\<lparr>sn_presence = presence, sn_health = JObj [],
           sn_stateVersion = \<lparr>sv_presence = presenceVersion s2, sv_health = healthVersion s2\<rparr>,
           sn_uptimeMs = up\<rparr>, s2))"

text \<open>
  The key under which a connection's presence entry is kept:
  \<open>hello.client.instanceId || connId\<close>.
\<close>

definition presenceKey :: "json \<Rightarrow> string \<Rightarrow> string" where
  "presenceKey hello cid =
     orElse (optStr (optProp (getProp hello ''client'') ''instanceId'')) cid"

definition rejectHello ::
  "nat \<Rightarrow> string \<Rightarrow> int option \<Rightarrow> nat \<Rightarrow> string \<Rightarrow> proc \<Rightarrow> proc" where
  "rejectHello i reason expected cd rs s =
     close i (socketClose i cd (Some rs) (send i (HelloErrorFrame reason expected) s))"

text \<open>
  A first frame on a connection, up to the \<open>await getHealthSnapshot()\<close>: the rest of the
  handshake is the continuation \<open>HelloCont\<close>.
\<close>

definition handleHello :: "world \<Rightarrow> nat \<Rightarrow> json \<Rightarrow> proc \<Rightarrow> proc" where
  "handleHello w i parsed s =
     (if \<not> validateHello parsed then
        rejectHello i (''invalid hello: '' @ errorsText w ''Hello'' parsed) None
          1008 ''invalid hello'' s
      else if numLess (numProp parsed ''maxProtocol'') (Finite (of_int PROTOCOL_VERSION))
              \<or> numLess (Finite (of_int PROTOCOL_VERSION)) (numProp parsed ''minProtocol'') then
        rejectHello i ''protocol mismatch'' (Some PROTOCOL_VERSION)
          1002 ''protocol mismatch'' s
      else if (case CLAWDIS_GATEWAY_TOKEN w of
                 Some token \<Rightarrow>
                   token \<noteq> [] \<and> optProp (getProp parsed ''auth'') ''token'' \<noteq> Some (JStr token)
               | None \<Rightarrow> False) then
        rejectHello i ''unauthorized'' None 1008 ''unauthorized'' s
      else
        (let s1 = updConn i (\<lambda>c. c\<lparr>client := Some parsed\<rparr>) s;
             s2 = s1\<lparr>clients := clients s1 @ [i]\<rparr>;
             cl = getProp parsed ''client'';
             s3 = upsertPresence w (presenceKey parsed (connId (conns s2 ! i)))
                    \<lparr>u_host = Some (Some (hostname w)),
                     u_version = Some (Some (envVersion w ''dev'')),
                     u_mode = Some (optStr (optProp cl ''mode'')),
                     u_reason = Some (Some ''connect''),
                     u_instanceId = Some (optStr (optProp cl ''instanceId'')),
                     u_text = None\<rparr> s2;
             s4 = s3\<lparr>presenceVersion := presenceVersion s3 + 1\<rparr>;
             (snapshot, s5) = buildSnapshot w s4
         in s5\<lparr>calls := calls s5 @ [GetHealthSnapshot],
                pending := pending s5 @ [HelloCont i snapshot]\<rparr>))"

text \<open>The \<open>catch\<close> of the message handler.\<close>

definition catchHandler :: "nat \<Rightarrow> string \<Rightarrow> proc \<Rightarrow> proc" where
  "catchHandler i err s =
     (let s1 = logError (''gateway: parse/handle error: '' @ err) s
      in if client (conns s1 ! i) = None then close i s1 else s1)"

subsection \<open>Requests\<close>

text \<open>
  The text of a \<open>system-event\<close>: \<open>String(params?.text ?? "").trim()\<close>; \<open>None\<close> when
  \<open>String\<close> throws. The throw happens inside the \<open>try\<close> of the message handler, so the
  handler ends in its \<open>catch\<close>.
\<close>

definition systemEventText :: "world \<Rightarrow> json option \<Rightarrow> string option" where
  "systemEventText w params =
     map_option trim (String_js w (nullish (optProp params ''text'') (JStr [])))"

definition handleSystemEvent :: "world \<Rightarrow> nat \<Rightarrow> string \<Rightarrow> json option \<Rightarrow> proc \<Rightarrow> proc" where
  "handleSystemEvent w i rid params s =
     (case systemEventText w params of
        None \<Rightarrow> catchHandler i typeErrorText s
      | Some text \<Rightarrow>
          if text = [] then
            respond i rid False None (Some (errorShape INVALID_REQUEST ''text required'')) s
          else
            (let s1 = s\<lparr>calls := calls s @ [EnqueueSystemEvent text]\<rparr>;
                 s2 = s1\<lparr>presenceVersion := presenceVersion s1 + 1\<rparr>;
                 (presence, s3) = listSystemPresence w s2;
                 s4 = broadcast ''presence'' (PresenceEvent presence) True
                        (Some \<lparr>sv_presence = presenceVersion s3, sv_health = healthVersion s3\<rparr>) s3
             in respond i rid True (Some OkTrue) None s4))"

definition handleSend :: "world \<Rightarrow> nat \<Rightarrow> string \<Rightarrow> json option \<Rightarrow> proc \<Rightarrow> proc" where
  "handleSend w i rid params s =
     (let p = nullish params (JObj [])
      in if \<not> validateSendParams p then
           respond i rid False None
             (Some (errorShape INVALID_REQUEST
                      (''invalid send params: '' @ errorsText w ''SendParams'' p))) s
         else
           (let idem = strProp p ''idempotencyKey''
            in case map_get (dedupe s) (''send:'' @ idem) of
                 Some cached \<Rightarrow> respond i rid (d_ok cached) (d_payload cached) (d_error cached) s
               | None \<Rightarrow>
                   (let to = trim (strProp p ''to'');
                        msg = trim (strProp p ''message'')
                    in s\<lparr>calls := calls s
                                   @ [SendMessageWhatsApp to msg (optStr (getProp p ''mediaUrl''))],
                          pending := pending s @ [SendCont i rid idem to]\<rparr>)))"

definition handleAgent :: "world \<Rightarrow> nat \<Rightarrow> string \<Rightarrow> json option \<Rightarrow> proc \<Rightarrow> proc" where
  "handleAgent w i rid params s =
     (let p = nullish params (JObj [])
      in if \<not> validateAgentParams p then
           respond i rid False None
             (Some (errorShape INVALID_REQUEST
                      (''invalid agent params: '' @ errorsText w ''AgentParams'' p))) s
         else
           (let idem = strProp p ''idempotencyKey''
            in case map_get (dedupe s) (''agent:'' @ idem) of
                 Some cached \<Rightarrow> respond i rid (d_ok cached) (d_payload cached) (d_error cached) s
               | None \<Rightarrow>
                   (let msg = trim (strProp p ''message'');
                        sessionId = optStr (getProp p ''sessionId'');
                        (runId, s1) = (case sessionId of
                                         Some x \<Rightarrow> if x \<noteq> [] then (x, s) else randomUUID w s
                                       | None \<Rightarrow> randomUUID w s);
                        s2 = s1\<lparr>seq := seq s1 + 1\<rparr>;
                        s3 = socketSend i
                               (EventFrame ''agent'' (AgentAccepted runId) (seq s2) None) s2
                    in s3\<lparr>calls := calls s3
                                    @ [AgentCommand
                                         \<lparr>a_message = msg,
                                          a_to = optStr (getProp p ''to''),
                                          a_sessionId = sessionId,
                                          a_thinking = optStr (getProp p ''thinking''),
                                          a_deliver = optBool (getProp p ''deliver''),
                                          a_timeout = map_option (numberToString w)
                                                        (optNum (getProp p ''timeout''))\<rparr>],
                           pending := pending s3 @ [AgentCont i rid idem runId]\<rparr>)))"

text \<open>
  A frame on a connection whose handshake has been accepted: the validation of the
  request frame and the \<open>switch\<close> on its method, each case up to its first \<open>await\<close>.
\<close>

definition handleRequest :: "world \<Rightarrow> nat \<Rightarrow> json \<Rightarrow> proc \<Rightarrow> proc" where
  "handleRequest w i parsed s =
     (if \<not> validateRequestFrame parsed then
        send i (ResFrame (nullish (optProp (Some parsed) ''id'') (JStr ''invalid'')) False None
                  (Some (errorShape INVALID_REQUEST
                           (''invalid request frame: '' @ errorsText w ''RequestFrame'' parsed)))) s
      else
        (let rid = strProp parsed ''id'';
             method = strProp parsed ''method'';
             params = getProp parsed ''params''
         in if method = ''health'' then
              s\<lparr>calls := calls s @ [GetHealthSnapshot], pending := pending s @ [HealthCont i rid]\<rparr>
            else if method = ''status'' then
              s\<lparr>calls := calls s @ [GetStatusSummary], pending := pending s @ [StatusCont i rid]\<rparr>
            else if method = ''system-presence'' then
              (let (presence, s1) = listSystemPresence w s
               in respond i rid True (Some (PresenceList presence)) None s1)
            else if method = ''system-event'' then handleSystemEvent w i rid params s
            else if method = ''set-heartbeats'' then respond i rid True (Some OkTrue) None s
            else if method = ''send'' then handleSend w i rid params s
            else if method = ''agent'' then handleAgent w i rid params s
            else respond i rid False None
                   (Some (errorShape INVALID_REQUEST (''unknown method: '' @ method))) s))"

text \<open>What \<open>JSON.parse(text)\<close> did: threw (with \<open>String(err)\<close>), or returned a value.\<close>

datatype parsed = ParseError string | Parsed json

definition onMessage :: "world \<Rightarrow> nat \<Rightarrow> parsed \<Rightarrow> proc \<Rightarrow> proc" where
  "onMessage w i data s =
     (if closed (conns s ! i) then s
      else case data of
             ParseError err \<Rightarrow> catchHandler i err s
           | Parsed v \<Rightarrow>
               if client (conns s ! i) = None then handleHello w i v s
               else handleRequest w i v s)"

subsection \<open>Handlers resumed after their \<open>await\<close>\<close>

definition helloOk :: "world \<Rightarrow> string \<Rightarrow> Snapshot \<Rightarrow> HelloOk" where
  "helloOk w cid snapshot =
     \<lparr>ho_protocol = PROTOCOL_VERSION, ho_version = envVersion w ''dev'',
      ho_commit = GIT_COMMIT w, ho_host = hostname w, ho_connId = cid,
      ho_methods = METHODS, ho_events = EVENTS, ho_snapshot = snapshot,
      ho_maxPayload = MAX_PAYLOAD_BYTES, ho_maxBufferedBytes = MAX_BUFFERED_BYTES,
      ho_tickIntervalMs = TICK_INTERVAL_MS\<rparr>"

definition dedupeSet ::
  "world \<Rightarrow> string \<Rightarrow> bool \<Rightarrow> payload option \<Rightarrow> ErrorShape option \<Rightarrow> proc \<Rightarrow> proc" where
  "dedupeSet w key ok pl er s =
     (let (t, s1) = Date_now w s
      in s1\<lparr>dedupe := map_set key \<lparr>d_ts = t, d_ok = ok, d_payload = pl, d_error = er\<rparr>
                          (dedupe s1)\<rparr>)"

text \<open>Whether a settled promise is the one the suspended handler awaits.\<close>

fun fits :: "cont \<Rightarrow> resumption \<Rightarrow> bool" where
  "fits (HelloCont i sn) (HealthDone r) = True"
| "fits (HealthCont i rid) (HealthDone r) = True"
| "fits (StatusCont i rid) (StatusDone r) = True"
| "fits (SendCont i rid idem to) (SendDone r) = True"
| "fits (AgentCont i rid idem runId) (AgentDone r) = True"
| "fits _ _ = False"

fun resume :: "world \<Rightarrow> cont \<Rightarrow> resumption \<Rightarrow> proc \<Rightarrow> proc" where
  "resume w (HelloCont i snapshot) (HealthDone (Resolved health)) s =
     (let s1 = s\<lparr>healthVersion := healthVersion s + 1\<rparr>;
          snapshot' = snapshot\<lparr>sn_health := health,
                        sn_stateVersion := (sn_stateVersion snapshot)\<lparr>sv_health := healthVersion s1\<rparr>\<rparr>;
          s2 = updConn i (\<lambda>c. c\<lparr>handshakeTimer := False\<rparr>) s1
      in send i (HelloOkFrame (helloOk w (connId (conns s2 ! i)) snapshot')) s2)"
| "resume w (HelloCont i snapshot) (HealthDone (Rejected err)) s = catchHandler i err s"
| "resume w (HealthCont i rid) (HealthDone (Resolved health)) s =
     respond i rid True (Some (Opaque health)) None (s\<lparr>healthVersion := healthVersion s + 1\<rparr>)"
| "resume w (HealthCont i rid) (HealthDone (Rejected err)) s = catchHandler i err s"
| "resume w (StatusCont i rid) (StatusDone (Resolved status)) s =
     respond i rid True (Some (Opaque status)) None s"
| "resume w (StatusCont i rid) (StatusDone (Rejected err)) s = catchHandler i err s"
| "resume w (SendCont i rid idem to) (SendDone (Resolved result)) s =
     (let pl = SendResult idem (messageId result)
                 (case toJid result of Some j \<Rightarrow> j | None \<Rightarrow> to @ ''@s.whatsapp.net'');
          s1 = dedupeSet w (''send:'' @ idem) True (Some pl) None s
      in respond i rid True (Some pl) None s1)"
| "resume w (SendCont i rid idem to) (SendDone (Rejected err)) s =
     (let er = errorShape UNAVAILABLE err;
          s1 = dedupeSet w (''send:'' @ idem) False None (Some er) s
      in respond i rid False None (Some er) s1)"
| "resume w (AgentCont i rid idem runId) (AgentDone (Resolved u)) s =
     (let pl = AgentResult runId ''ok'' ''completed'';
          s1 = dedupeSet w (''agent:'' @ idem) True (Some pl) None s
      in respond i rid True (Some pl) None s1)"
| "resume w (AgentCont i rid idem runId) (AgentDone (Rejected err)) s =
     (let er = errorShape UNAVAILABLE err;
          pl = AgentResult runId ''error'' err;
          s1 = dedupeSet w (''agent:'' @ idem) False (Some pl) (Some er) s
      in respond i rid False (Some pl) (Some er) s1)"
| "resume w c r s = s"

subsection \<open>Socket events, timers and shutdown\<close>

text \<open>\<open>wss.on("connection")\<close>: a new socket with its closures; the handshake timer is armed.\<close>

definition onConnection :: "world \<Rightarrow> proc \<Rightarrow> proc" where
  "onConnection w s =
     (let (cid, s1) = randomUUID w s
      in s1\<lparr>conns := conns s1
                @ [\<lparr>connId = cid, client = None, closed = False, handshakeTimer = True,
                    onError = True, onClose = True, bufferedAmount = 0, ops = []\<rparr>]\<rparr>)"

text \<open>\<open>socket.once("close")\<close>.\<close>

definition onSocketClose :: "world \<Rightarrow> nat \<Rightarrow> proc \<Rightarrow> proc" where
  "onSocketClose w i s =
     (let s0 = updConn i (\<lambda>c. c\<lparr>onClose := False\<rparr>) s
      in case client (conns s0 ! i) of
           Some hello \<Rightarrow>
             (let s1 = upsertPresence w (presenceKey hello (connId (conns s0 ! i)))
                         \<lparr>u_host = None, u_version = None, u_mode = None,
                          u_reason = Some (Some ''disconnect''), u_instanceId = None,
                          u_text = None\<rparr> s0;
                  s2 = s1\<lparr>presenceVersion := presenceVersion s1 + 1\<rparr>;
                  (presence, s3) = listSystemPresence w s2;
                  s4 = broadcast ''presence'' (PresenceEvent presence) True
                         (Some \<lparr>sv_presence = presenceVersion s3,
                                sv_health = healthVersion s3\<rparr>) s3
              in close i s4)
         | None \<Rightarrow> close i s0)"

text \<open>\<open>socket.once("error")\<close>.\<close>

definition onSocketError :: "nat \<Rightarrow> proc \<Rightarrow> proc" where
  "onSocketError i s = close i (updConn i (\<lambda>c. c\<lparr>onError := False\<rparr>) s)"

text \<open>The handshake timer fires.\<close>

definition onHandshakeTimeout :: "nat \<Rightarrow> proc \<Rightarrow> proc" where
  "onHandshakeTimeout i s =
     (let s1 = updConn i (\<lambda>c. c\<lparr>handshakeTimer := False\<rparr>) s
      in if client (conns s1 ! i) = None then close i s1 else s1)"

text \<open>The keepalive interval fires.\<close>

definition onTick :: "world \<Rightarrow> proc \<Rightarrow> proc" where
  "onTick w s =
     (let (now, s1) = Date_now w s
      in broadcast ''tick'' (TickPayload now) True None s1)"

text \<open>
  The sweep interval fires. The \<open>TypeError\<close> branch of the eviction loop would leave
  the callback; it is never taken (lemma \<open>dedupeCleanup_returns\<close>), and the model keeps
  the cache as it is there.
\<close>

definition onDedupeCleanup :: "world \<Rightarrow> proc \<Rightarrow> proc" where
  "onDedupeCleanup w s =
     (let (now, s1) = Date_now w s
      in case dedupeCleanup now (dedupe s1) of
           Some d \<Rightarrow> s1\<lparr>dedupe := d\<rparr>
         | None \<Rightarrow> s1)"

text \<open>\<open>GatewayServer.close\<close>.\<close>

definition shutdown :: "proc \<Rightarrow> proc" where
  "shutdown s =
     (let s1 = broadcast ''shutdown'' ShutdownPayload False None s;
          s2 = s1\<lparr>intervals := False, agentSub := False\<rparr>;
          s3 = fold (\<lambda>i. socketClose i 1012 (Some ''service restart'')) (clients s2) s2
      in s3\<lparr>clients := [], listening := False\<rparr>)"

subsection \<open>The process as a transition system\<close>

text \<open>
  Everything that makes the process run a piece of code: a socket is accepted, a message
  arrives on a socket, an awaited promise settles, a socket reports an error or its
  closing, a timer fires, the agent bus publishes, the server is shut down. \<open>Buffered\<close>
  is the transport changing a socket's \<open>bufferedAmount\<close>. Sockets are named by the order
  in which they were accepted, suspended handlers by their place in \<open>pending\<close>.
\<close>

datatype event =
    Connection
  | Message nat parsed
  | Resume nat resumption
  | SocketError nat
  | SocketClose nat
  | HandshakeTimeout nat
  | TickTimer
  | DedupeTimer
  | AgentEvent json
  | Shutdown
  | Buffered nat nat

definition step :: "world \<Rightarrow> event \<Rightarrow> proc \<Rightarrow> proc" where
  "step w ev s =
     (case ev of
        Connection \<Rightarrow> if listening s then onConnection w s else s
      | Message i data \<Rightarrow> if i < length (conns s) then onMessage w i data s else s
      | Resume k r \<Rightarrow>
          if k < length (pending s) \<and> fits (pending s ! k) r
          then resume w (pending s ! k) r
                 (s\<lparr>pending := take k (pending s) @ drop (Suc k) (pending s)\<rparr>)
          else s
      | SocketError i \<Rightarrow>
          if i < length (conns s) \<and> onError (conns s ! i) then onSocketError i s else s
      | SocketClose i \<Rightarrow>
          if i < length (conns s) \<and> onClose (conns s ! i) then onSocketClose w i s else s
      | HandshakeTimeout i \<Rightarrow>
          if i < length (conns s) \<and> handshakeTimer (conns s ! i)
          then onHandshakeTimeout i s else s
      | TickTimer \<Rightarrow> if intervals s then onTick w s else s
      | DedupeTimer \<Rightarrow> if intervals s then onDedupeCleanup w s else s
      | AgentEvent evt \<Rightarrow> if agentSub s then broadcast ''agent'' (Opaque evt) False None s else s
      | Shutdown \<Rightarrow> shutdown s
      | Buffered i n \<Rightarrow>
          if i < length (conns s) then updConn i (\<lambda>c. c\<lparr>bufferedAmount := n\<rparr>) s else s)"

text \<open>
  The process after the modules are loaded (\<open>initSelfPresence()\<close> at the top level of
  system-presence.ts) and \<open>startGatewayServer\<close> has returned.
\<close>

definition init :: "world \<Rightarrow> proc" where
  "init w =
     initSelfPresence w
       \<lparr>reads = 0, entries = [], presenceVersion = 1, healthVersion = 1, seq = 0,
        dedupe = [], clients = [], conns = [], pending = [], calls = [],
        intervals = True, agentSub = True, listening = True\<rparr>"

definition run :: "world \<Rightarrow> event list \<Rightarrow> proc \<Rightarrow> proc" where
  "run w evs s = fold (step w) evs s"

section \<open>The gateway client (client.ts)\<close>



datatype client_effect =
    CallOnHelloOk json
  | CallOnGap number number
  | CallOnEvent json
  | CallResolve string "json option"
  | CallReject string string
  | CallWsClose nat string
  | CallLogError string
  | CallLogDebug string

text \<open>The \<open>catch\<close> of \<open>handleMessage\<close>: a debug line with \<open>String(err)\<close>.\<close>

definition caught :: "string \<Rightarrow> client_effect" where
  "caught err = CallLogDebug (''gateway client parse error: '' @ err)"







section \<open>Notions the properties are stated with\<close>

text \<open>
  A connection that has completed its handshake and is open: \<open>client\<close> is set and
  \<open>closed\<close> is not. It is registered when it is in the server's client set, and slow
  when its socket buffers more than \<open>MAX_BUFFERED_BYTES\<close>.
\<close>

definition ready :: "proc \<Rightarrow> nat \<Rightarrow> bool" where
  "ready s i = (i < length (conns s) \<and> \<not> closed (conns s ! i) \<and> client (conns s ! i) \<noteq> None)"

definition registered :: "proc \<Rightarrow> nat \<Rightarrow> bool" where
  "registered s j = (j \<in> set (clients s))"

definition slow :: "proc \<Rightarrow> nat \<Rightarrow> bool" where
  "slow s j = (bufferedAmount (conns s ! j) > MAX_BUFFERED_BYTES)"

text \<open>The \<open>params\<close> of a request as the \<open>send\<close> and \<open>agent\<close> cases read them: \<open>req.params ?? {}\<close>.\<close>

definition paramsOf :: "json \<Rightarrow> json" where
  "paramsOf req = nullish (getProp req ''params'') (JObj [])"

text \<open>The \<open>type\<close> of a frame on the wire, and the types of the frames sent on a socket.\<close>

fun frameType :: "frame \<Rightarrow> string" where
  "frameType (HelloOkFrame h) = ''hello-ok''"
| "frameType (HelloErrorFrame r e) = ''hello-error''"
| "frameType (ResFrame rid ok pl er) = ''res''"
| "frameType (EventFrame ev pl n sv) = ''event''"

fun sentTypes :: "sock_op list \<Rightarrow> string list" where
  "sentTypes [] = []"
| "sentTypes (Sent f # xs) = frameType f # sentTypes xs"
| "sentTypes (CloseCall cd rs # xs) = sentTypes xs"

text \<open>The \<open>seq\<close> of the event frames sent on a socket, in the order they were sent.\<close>

fun eventSeqs :: "sock_op list \<Rightarrow> nat list" where
  "eventSeqs [] = []"
| "eventSeqs (Sent (EventFrame ev pl n sv) # xs) = n # eventSeqs xs"
| "eventSeqs (x # xs) = eventSeqs xs"

text \<open>The \<open>socket.close\<close> calls made on a socket.\<close>

fun closeCalls :: "sock_op list \<Rightarrow> (nat \<times> string option) list" where
  "closeCalls [] = []"
| "closeCalls (CloseCall cd rs # xs) = (cd, rs) # closeCalls xs"
| "closeCalls (Sent f # xs) = closeCalls xs"

text \<open>
  The client set is a \<open>Set\<close>: no connection is in it twice, and its members are
  accepted sockets whose hello was accepted.
\<close>

definition wellFormed :: "proc \<Rightarrow> bool" where
  "wellFormed s =
     (distinct (clients s)
      \<and> list_all (\<lambda>i. i < length (conns s) \<and> client (conns s ! i) \<noteq> None) (clients s))"

text \<open>
  The state apart from the presence registry and the count of outside readings: what
  the sockets, the cache, the counters and the collaborators can tell.
\<close>

definition core :: "proc \<Rightarrow> proc" where
  "core s = s\<lparr>reads := 0, entries := []\<rparr>"

text \<open>What one pass of \<open>broadcast\<close> does to the socket it visits.\<close>

definition delivered :: "frame \<Rightarrow> bool \<Rightarrow> conn \<Rightarrow> conn" where
  "delivered f d c =
     (if bufferedAmount c > MAX_BUFFERED_BYTES
      then (if d then c else c\<lparr>ops := ops c @ [CloseCall 1008 (Some ''slow consumer'')]\<rparr>)
      else c\<lparr>ops := ops c @ [Sent f]\<rparr>)"

text \<open>
  Inside one call of \<open>listSystemPresence\<close> from the state \<open>s\<close>: the reading \<open>now\<close> the
  call takes, the state once the expired and the surplus entries are gone, and the entry
  \<open>touchSelfPresence\<close> then stores under the gateway's own key.
\<close>

definition readNow :: "world \<Rightarrow> proc \<Rightarrow> int" where
  "readNow w s = clock w (reads (ensureSelfPresence w s))"

definition afterEviction :: "world \<Rightarrow> proc \<Rightarrow> proc" where
  "afterEviction w s =
     (let s1 = ensureSelfPresence w s;
          (now, s2) = Date_now w s1;
          s3 = s2\<lparr>entries := filter (\<lambda>kv. \<not> (now - p_ts (snd kv) > TTL_MS)) (entries s2)\<rparr>
      in if length (entries s3) > MAX_ENTRIES then
           (let sorted = sort_key (\<lambda>kv. p_ts (snd kv)) (entries s3);
                toDrop = length (entries s3) - MAX_ENTRIES
            in s3\<lparr>entries := fold (\<lambda>kv m. map_delete (fst kv) m)
                                   (take toDrop sorted) (entries s3)\<rparr>)
         else s3)"

definition touchedSelf :: "world \<Rightarrow> proc \<Rightarrow> SystemPresence" where
  "touchedSelf w s =
     (let s4 = afterEviction w s; t = clock w (reads s4)
      in case map_get (entries s4) (selfKey w) of
           Some existing \<Rightarrow> existing\<lparr>p_ts := t\<rparr>
         | None \<Rightarrow> selfEntry w t)"

text \<open>
  The presence list a \<open>system-event\<close> with text \<open>text\<close> broadcasts from the state \<open>s\<close>:
  what \<open>listSystemPresence()\<close> returns once the text is queued and \<open>presenceVersion\<close>
  bumped; and the presence event frame that goes out from \<open>s\<close> with a given list.
\<close>

definition presenceAfterEvent :: "world \<Rightarrow> string \<Rightarrow> proc \<Rightarrow> SystemPresence list" where
  "presenceAfterEvent w text s =
     fst (listSystemPresence w
            (s\<lparr>calls := calls s @ [EnqueueSystemEvent text],
               presenceVersion := presenceVersion s + 1\<rparr>))"

definition presenceFrame :: "SystemPresence list \<Rightarrow> proc \<Rightarrow> frame" where
  "presenceFrame presence s =
     EventFrame ''presence'' (PresenceEvent presence) (seq s + 1)
       (Some \<lparr>sv_presence = presenceVersion s + 1, sv_health = healthVersion s\<rparr>)"






text \<open>The options the \<open>agent\<close> handler passes to the agent command for parameters \<open>p\<close>.\<close>

definition agentOpts :: "world \<Rightarrow> json \<Rightarrow> AgentOpts" where
  "agentOpts w p =
     \<lparr>a_message = trim (strProp p ''message''), a_to = optStr (getProp p ''to''),
      a_sessionId = optStr (getProp p ''sessionId''),
      a_thinking = optStr (getProp p ''thinking''),
      a_deliver = optBool (getProp p ''deliver''),
      a_timeout = map_option (numberToString w) (optNum (getProp p ''timeout''))\<rparr>"

text \<open>The arguments of the gap callback's invocations among the client's effects, in order.\<close>

fun gapCalls :: "client_effect list \<Rightarrow> (number \<times> number) list" where
  "gapCalls [] = []"
| "gapCalls (CallOnGap e r # es) = (e, r) # gapCalls es"
| "gapCalls (x # es) = gapCalls es"

section \<open>Example inputs\<close>

text \<open>
  A host named \<open>gw\<close> without network interfaces, no gateway token, a clock that stands
  at 1000, a UUID source that numbers its answers and a number printer that is right on
  the integers below \<open>2^53\<close>.
\<close>

definition exWorld :: world where
  "exWorld =
     \<lparr>hostname = ''gw'', networkInterfaces = [], CLAWDIS_VERSION = Some ''1'',
      npm_package_version = None, CLAWDIS_GATEWAY_TOKEN = None, GIT_COMMIT = None,
      clock = (\<lambda>k. 1000), uuid = (\<lambda>k. ''uuid-'' @ showNat k), uptimeMs = (\<lambda>k. 5),
      errorsText = (\<lambda>schema v. ''must match schema '' @ schema),
      numberToString = (\<lambda>x. case x of Finite r \<Rightarrow> showInt \<lfloor>r\<rfloor>
                                     | PosInf \<Rightarrow> ''Infinity'' | NegInf \<Rightarrow> ''-Infinity'')\<rparr>"

definition exHello :: json where
  "exHello =
     JObj [(''type'', JStr ''hello''), (''minProtocol'', JNum 1), (''maxProtocol'', JNum 1),
           (''client'', JObj [(''name'', JStr ''test''), (''version'', JStr ''1.0.0''),
                              (''platform'', JStr ''test''), (''mode'', JStr ''test'')]),
           (''caps'', JArr [])]"

definition exReq :: "string \<Rightarrow> string \<Rightarrow> (string \<times> json) list \<Rightarrow> json" where
  "exReq rid method params =
     JObj [(''type'', JStr ''req''), (''id'', JStr rid), (''method'', JStr method),
           (''params'', JObj params)]"

text \<open>One client connects and completes its handshake; then a second one does.\<close>

definition exHandshake :: "nat \<Rightarrow> event list" where
  "exHandshake i =
     [Connection, Message i (Parsed exHello), Resume 0 (HealthDone (Resolved (JObj [])))]"

text \<open>The socket of a client whose \<open>exHello\<close> was answered with \<open>hello-ok\<close>.\<close>

definition readyConn :: "world \<Rightarrow> string \<Rightarrow> Snapshot \<Rightarrow> conn" where
  "readyConn w cid snap =
     \<lparr>connId = cid, client = Some exHello, closed = False, handshakeTimer = False,
      onError = True, onClose = True, bufferedAmount = 0,
      ops = [Sent (HelloOkFrame (helloOk w cid snap))]\<rparr>"

definition exReady :: proc where
  "exReady = run exWorld (exHandshake 0) (init exWorld)"

definition exReady2 :: proc where
  "exReady2 = run exWorld (exHandshake 1) exReady"

text \<open>The first client stops reading: its socket buffers 2000000 bytes.\<close>

definition exSlow :: proc where
  "exSlow = step exWorld (Buffered 0 2000000) exReady"

text \<open>The same with a second client connected, which keeps reading.\<close>

definition exSlow2 :: proc where
  "exSlow2 = step exWorld (Buffered 0 2000000) exReady2"

definition exSystemEvent :: "string \<Rightarrow> string \<Rightarrow> json" where
  "exSystemEvent rid text = exReq rid ''system-event'' [(''text'', JStr text)]"


definition exAgent :: "string \<Rightarrow> json" where
  "exAgent rid = exReq rid ''agent'' [(''message'', JStr ''hi''), (''idempotencyKey'', JStr ''I'')]"

text \<open>The first client's agent turn \<open>I\<close> and its delivery \<open>K\<close> have completed.\<close>

definition exAgentDone :: proc where
  "exAgentDone =
     run exWorld [Message 0 (Parsed (exAgent ''ag1'')), Resume 0 (AgentDone (Resolved ()))] exReady"



text \<open>The run id the \<open>agent\<close> request of \<open>exAgentDone\<close> is given.\<close>

definition exRunId :: string where
  "exRunId = uuid exWorld (reads exReady)"






text \<open>
  A cache of \<open>n\<close> entries, all stored at time 0, under the keys \<open>send:\<close>, \<open>send:k\<close>,
  \<open>send:kk\<close>, ...; and the one of 1002 entries.
\<close>

definition exCache :: "nat \<Rightarrow> (string \<times> DedupeEntry) list" where
  "exCache n =
     map (\<lambda>m. (''send:'' @ replicate m (CHR ''k''),
               \<lparr>d_ts = 0, d_ok = True, d_payload = Some OkTrue, d_error = None\<rparr>))
         [0..<n]"

definition exFullCache :: "(string \<times> DedupeEntry) list" where
  "exFullCache = exCache 1002"

section \<open>Numbers: evaluation and the integers below \<open>2^53\<close>\<close>

declare bitLength.simps [simp del]

lemma bitLength_numeral [simp]:
  "bitLength 0 = 0" "bitLength 1 = 1"
  "bitLength (numeral (Num.Bit0 k)) = Suc (bitLength (numeral k))"
  "bitLength (numeral (Num.Bit1 k)) = Suc (bitLength (numeral k))"
  "bitLength (- numeral k) = 0"
  by (simp_all add: bitLength.simps[of 0] bitLength.simps[of 1]
        bitLength.simps[of "numeral (Num.Bit0 k)"] bitLength.simps[of "numeral (Num.Bit1 k)"]
        bitLength.simps[of "- numeral k"])

lemma floor_rat_numeral [simp]:
  "\<lfloor>numeral a / numeral b :: rat\<rfloor> = numeral a div numeral b"
  using floor_divide_of_int_eq[of "numeral a" "numeral b", where ?'a = rat] by simp

lemma ceiling_rat_numeral [simp]:
  "\<lceil>numeral a / numeral b :: rat\<rceil> = - ((- numeral a) div numeral b)"
  using ceiling_divide_eq_div[of "numeral a" "numeral b", where ?'a = rat] by simp


lemma bitLength_bounds:
  "0 < n \<Longrightarrow> 2 ^ (bitLength n - 1) \<le> n \<and> n < 2 ^ bitLength n"
proof (induction n rule: bitLength.induct)
  case (1 n)
  show ?case
  proof (cases "n = 1")
    case True
    then show ?thesis by simp
  next
    case False
    with "1.prems" have h: "0 < n div 2" by simp
    let ?b = "bitLength (n div 2)"
    have b: "bitLength n = Suc ?b"
      using "1.prems" by (subst bitLength.simps) simp
    have ih: "2 ^ (?b - 1) \<le> n div 2 \<and> n div 2 < 2 ^ ?b"
      using "1.IH" "1.prems" h by simp
    have pos: "0 < ?b"
      using h by (subst bitLength.simps) simp
    then have e: "(2::int) ^ ?b = 2 * 2 ^ (?b - 1)"
      by (cases ?b) simp_all
    have "2 ^ ?b \<le> n" using ih e by linarith
    moreover have "n < 2 * 2 ^ ?b" using ih by linarith
    ultimately show ?thesis by (simp add: b)
  qed
qed

lemma roundHalfEven_of_int [simp]: "roundHalfEven (of_int z) = z"
  by (simp add: roundHalfEven_def)

lemma pow2_pos [simp]: "0 < pow2 e"
  by (simp add: pow2_def)

lemma pow2_neg: "pow2 (- int j) = 1 / 2 ^ j"
  by (cases j) (simp_all add: pow2_def nat_add_distrib)

lemma toDouble_exact:
  assumes "q \<noteq> 0" and "\<bar>q\<bar> / pow2 (max (floorLog2 \<bar>q\<bar> - 52) (- 1074)) = of_int z"
      and "\<bar>q\<bar> < pow2 1024"
  shows "toDouble q = Finite q"
proof -
  let ?e = "max (floorLog2 \<bar>q\<bar> - 52) (- 1074)"
  have "of_int z * pow2 ?e = \<bar>q\<bar>"
    using assms(2) pow2_pos[of ?e] by (simp add: field_simps)
  then have r: "of_int (roundHalfEven (\<bar>q\<bar> / pow2 ?e)) * pow2 ?e = \<bar>q\<bar>"
    unfolding assms(2) by simp
  show ?thesis
    unfolding toDouble_def Let_def r using assms(1,3) by (auto simp: abs_if)
qed

lemma toDouble_of_int:
  assumes "\<bar>n\<bar> \<le> 2 ^ 53"
  shows "toDouble (of_int n) = Finite (of_int n)"
proof (cases "n = 0")
  case True
  then show ?thesis by (simp add: toDouble_def)
next
  case False
  let ?m = "\<bar>n\<bar>"
  let ?b = "bitLength ?m"
  have m: "0 < ?m" using False by simp
  have abs: "\<bar>of_int n :: rat\<bar> = of_int ?m" by simp
  have bnd: "2 ^ (?b - 1) \<le> ?m" "?m < 2 ^ ?b"
    using bitLength_bounds[OF m] by simp_all
  have bpos: "0 < ?b" using m by (subst bitLength.simps) simp
  have "(2::int) ^ (?b - 1) \<le> 2 ^ 53" using bnd(1) assms by linarith
  then have b54: "?b - 1 \<le> 53" by (rule power_le_imp_le_exp[rotated]) simp
  have "1 \<le> ?m" using m by linarith
  then have one: "(1::rat) \<le> of_int ?m" by (simp only: of_int_1_le_iff)
  have fl: "floorLog2 (of_int ?m) = int ?b - 1"
    unfolding floorLog2_def using one by (simp only: if_True floor_of_int)
  have lt: "(of_int ?m :: rat) < pow2 1024"
  proof -
    have "(2::int) ^ 53 < 2 ^ 1024" by simp
    then have "?m < 2 ^ 1024" using assms by linarith
    then have "(of_int ?m :: rat) < of_int (2 ^ 1024)" by (simp only: of_int_less_iff)
    then show ?thesis by (simp add: pow2_def)
  qed
  have "\<exists>z. (of_int ?m :: rat) / pow2 (max (int ?b - 1 - 52) (- 1074)) = of_int z"
  proof (cases "?b - 1 \<le> 52")
    case True
    then have e: "max (int ?b - 1 - 52) (- 1074) = - int (53 - ?b)"
      using bpos by simp
    have "pow2 (- int (53 - ?b)) = 1 / 2 ^ (53 - ?b)"
      by (rule pow2_neg)
    then have "(of_int ?m :: rat) / pow2 (- int (53 - ?b)) = of_int (?m * 2 ^ (53 - ?b))"
      by simp
    then show ?thesis unfolding e by blast
  next
    case False
    with b54 have b: "?b = 54" by simp
    then have "2 ^ 53 \<le> ?m" using bnd(1) by simp
    with assms have mm: "?m = 2 ^ 53" by simp
    have "(of_int ?m :: rat) / pow2 (max (int ?b - 1 - 52) (- 1074)) = of_int (2 ^ 52)"
      unfolding mm b by (simp add: pow2_def)
    then show ?thesis by blast
  qed
  then obtain z where
    z: "\<bar>of_int n :: rat\<bar> / pow2 (max (floorLog2 \<bar>of_int n\<bar> - 52) (- 1074)) = of_int z"
    unfolding abs fl by blast
  have nz: "(of_int n :: rat) \<noteq> 0" using False by simp
  have "\<bar>of_int n :: rat\<bar> < pow2 1024" unfolding abs by (rule lt)
  with nz z show ?thesis by (rule toDouble_exact)
qed


lemma toDouble_small [simp]:
  "toDouble 0 = Finite 0" "toDouble 1 = Finite 1" "toDouble 3 = Finite 3"
  "toDouble 4 = Finite 4" "toDouble 7 = Finite 7"
  using toDouble_of_int[of 0] toDouble_of_int[of 1] toDouble_of_int[of 3] toDouble_of_int[of 4]
    toDouble_of_int[of 7]
  by simp_all

section \<open>Lemmas on the presence registry\<close>

lemma map_get_map_set_same: "map_get (map_set k v m) k = Some v"
  by (induction m) (auto simp: map_get_def)

lemma set_map_set: "set (map_set k v m) \<subseteq> insert (k, v) (set m)"
  by (induction m) (auto split: if_splits)

lemma map_set_mem: "(k, v) \<in> set (map_set k v m)"
  by (induction m) auto

lemma set_fold_map_delete: "set (fold (\<lambda>kv m. map_delete (fst kv) m) ks m) \<subseteq> set m"
proof (induction ks arbitrary: m)
  case Nil
  show ?case by simp
next
  case (Cons k ks)
  have "set (fold (\<lambda>kv m. map_delete (fst kv) m) ks (map_delete (fst k) m))
          \<subseteq> set (map_delete (fst k) m)"
    by (rule Cons.IH)
  also have "\<dots> \<subseteq> set m" by (auto simp: map_delete_def)
  finally show ?case by simp
qed

lemma touchSelfPresence_entries:
  "entries (touchSelfPresence w s) =
     map_set (selfKey w)
       (case map_get (entries s) (selfKey w) of
          Some existing \<Rightarrow> existing\<lparr>p_ts := clock w (reads s)\<rparr>
        | None \<Rightarrow> selfEntry w (clock w (reads s))) (entries s)"
  by (auto simp: touchSelfPresence_def initSelfPresence_def Date_now_def selfEntry_def Let_def
           split: option.splits)

lemma touchSelfPresence_reads: "reads (touchSelfPresence w s) = Suc (reads s)"
  by (auto simp: touchSelfPresence_def initSelfPresence_def Date_now_def split: option.splits)

lemma listSystemPresence_alt:
  "listSystemPresence w s =
     (let s5 = touchSelfPresence w (afterEviction w s)
      in (sort_key (\<lambda>v. - p_ts v) (map snd (entries s5)), s5))"
  by (simp add: listSystemPresence_def afterEviction_def Let_def split: prod.splits)

lemma afterEviction_reads: "reads (afterEviction w s) = Suc (reads (ensureSelfPresence w s))"
  by (simp add: afterEviction_def Date_now_def Let_def)

lemma afterEviction_fresh:
  assumes "kv \<in> set (entries (afterEviction w s))"
  shows "\<not> (readNow w s - p_ts (snd kv) > TTL_MS)"
proof -
  let ?kept = "filter (\<lambda>kv. \<not> (readNow w s - p_ts (snd kv) > TTL_MS))
                 (entries (ensureSelfPresence w s))"
  have "set (entries (afterEviction w s)) \<subseteq> set ?kept"
    using set_fold_map_delete[of _ ?kept]
    by (auto simp: afterEviction_def readNow_def Date_now_def Let_def)
  with assms have "kv \<in> set ?kept" by blast
  then show ?thesis by simp
qed

text \<open>
  C8. Every call of \<open>listSystemPresence\<close> returns a list that holds the entry kept under
  the gateway's own key, stamped with the clock reading the call took last (the existing
  entry re-touched, or a new self entry when there was none); no entry of the list is
  older than the TTL at the call's \<open>now\<close>; and the list is sorted by \<open>ts\<close>, newest first.
  The clock is taken not to run backwards between two readings.
\<close>

theorem listSystemPresence_self_fresh_sorted:
  assumes mono: "\<And>k. clock w k \<le> clock w (Suc k)"
      and res: "listSystemPresence w s = (res, s')"
  shows "map_get (entries s') (selfKey w) = Some (touchedSelf w s)
       \<and> touchedSelf w s \<in> set res
       \<and> p_ts (touchedSelf w s) = clock w (reads s' - 1)
       \<and> list_all (\<lambda>e. \<not> (readNow w s - p_ts e > TTL_MS)) res
       \<and> sorted_wrt (\<lambda>a b. p_ts a \<ge> p_ts b) res"
proof -
  let ?s4 = "afterEviction w s"
  let ?t = "clock w (reads ?s4)"
  let ?e = "touchedSelf w s"
  have s': "s' = touchSelfPresence w ?s4"
    and r: "res = sort_key (\<lambda>v. - p_ts v) (map snd (entries s'))"
    using res by (auto simp: listSystemPresence_alt Let_def)
  have ent: "entries s' = map_set (selfKey w) ?e (entries ?s4)"
    by (simp add: s' touchSelfPresence_entries touchedSelf_def Let_def)
  have ts: "p_ts ?e = ?t"
    by (simp add: touchedSelf_def selfEntry_def Let_def split: option.splits)
  have rd: "reads s' - 1 = reads ?s4"
    by (simp add: s' touchSelfPresence_reads)
  have A1: "map_get (entries s') (selfKey w) = Some ?e"
    by (simp add: ent map_get_map_set_same)
  have A2: "?e \<in> set res"
    using map_set_mem[of "selfKey w" ?e "entries ?s4"] by (force simp: r ent)
  have A3: "p_ts ?e = clock w (reads s' - 1)"
    using ts rd by simp
  have le: "readNow w s \<le> ?t"
    using mono[of "reads (ensureSelfPresence w s)"] by (simp add: afterEviction_reads readNow_def)
  have "\<forall>e\<in>set res. \<not> (readNow w s - p_ts e > TTL_MS)"
  proof
    fix e assume "e \<in> set res"
    then obtain k where "(k, e) \<in> set (entries s')" by (auto simp: r)
    then have "(k, e) = (selfKey w, ?e) \<or> (k, e) \<in> set (entries ?s4)"
      using set_map_set[of "selfKey w" ?e "entries ?s4"] by (auto simp: ent)
    then show "\<not> (readNow w s - p_ts e > TTL_MS)"
    proof
      assume "(k, e) = (selfKey w, ?e)"
      then have "p_ts e = ?t" using ts by simp
      then show ?thesis using le by (simp add: TTL_MS_def)
    next
      assume "(k, e) \<in> set (entries ?s4)"
      from afterEviction_fresh[OF this] show ?thesis by simp
    qed
  qed
  then have B: "list_all (\<lambda>e. \<not> (readNow w s - p_ts e > TTL_MS)) res"
    by (simp add: list_all_iff)
  have "sorted (map (\<lambda>v. - p_ts v) res)"
    unfolding r by (rule sorted_sort_key)
  then have C: "sorted_wrt (\<lambda>a b. p_ts a \<ge> p_ts b) res"
    by (simp add: sorted_map sorted_wrt_iff_nth_less)
  from A1 A2 A3 B C show ?thesis by blast
qed

lemma exWorld_sel:
  "clock exWorld k = 1000" "hostname exWorld = ''gw''" "CLAWDIS_GATEWAY_TOKEN exWorld = None"
  by (simp_all add: exWorld_def)

lemma selfKey_exWorld: "selfKey exWorld = ''gw''"
  by (simp add: selfKey_def toLowerCase_def lowerChar_def exWorld_sel)

lemma init_exWorld:
  "init exWorld =
     \<lparr>reads = 1, entries = [(''gw'', selfEntry exWorld 1000)], presenceVersion = 1,
      healthVersion = 1, seq = 0, dedupe = [], clients = [], conns = [], pending = [],
      calls = [], intervals = True, agentSub = True, listening = True\<rparr>"
  by (simp add: init_def initSelfPresence_def Date_now_def selfKey_exWorld exWorld_sel)

lemma p_ts_selfEntry: "p_ts (selfEntry w t) = t"
  by (simp add: selfEntry_def Let_def)

lemma selfEntry_touch: "(selfEntry w t)\<lparr>p_ts := t'\<rparr> = selfEntry w t'"
  by (simp add: selfEntry_def Let_def)

lemma listSystemPresence_init_exWorld:
  "listSystemPresence exWorld (init exWorld)
     = ([selfEntry exWorld 1000], (init exWorld)\<lparr>reads := 3\<rparr>)"
  unfolding init_exWorld
  by (simp add: listSystemPresence_def ensureSelfPresence_def Date_now_def touchSelfPresence_def
        map_get_def selfKey_exWorld exWorld_sel p_ts_selfEntry selfEntry_touch TTL_MS_def
        MAX_ENTRIES_def)

theorem listSystemPresence_self_fresh_sorted_witness:
  "(\<forall>k. clock exWorld k \<le> clock exWorld (Suc k))
   \<and> listSystemPresence exWorld (init exWorld)
       = ([selfEntry exWorld 1000], (init exWorld)\<lparr>reads := 3\<rparr>)
   \<and> touchedSelf exWorld (init exWorld) \<in> set [selfEntry exWorld 1000]
   \<and> p_ts (touchedSelf exWorld (init exWorld)) = 1000
   \<and> list_all (\<lambda>e. \<not> (readNow exWorld (init exWorld) - p_ts e > TTL_MS))
         [selfEntry exWorld 1000]
   \<and> sorted_wrt (\<lambda>a b. p_ts a \<ge> p_ts b) [selfEntry exWorld 1000]"
  using listSystemPresence_self_fresh_sorted
          [of exWorld "init exWorld" "[selfEntry exWorld 1000]" "(init exWorld)\<lparr>reads := 3\<rparr>"]
        listSystemPresence_init_exWorld
  by (simp add: exWorld_sel p_ts_selfEntry)

section \<open>Lemmas on the dedupe sweep\<close>

declare evictLoop.simps [simp del]

lemma length_map_delete_le: "length (map_delete k m) \<le> length m"
  by (simp add: map_delete_def)

lemma evictLoop_returns: "length d \<le> length arr \<Longrightarrow> \<exists>r. evictLoop i arr d = Some r"
proof (induction i arr d rule: evictLoop.induct)
  case (1 i arr d)
  show ?case
  proof (cases "int i < int (length d) - int DEDUPE_MAX")
    case True
    then have i: "i < length arr" using "1.prems" by linarith
    have "length (map_delete (fst (arr ! i)) d) \<le> length arr"
      using length_map_delete_le "1.prems" by (rule le_trans)
    with True i have "\<exists>r. evictLoop (Suc i) arr (map_delete (fst (arr ! i)) d) = Some r"
      by (intro "1.IH")
    moreover have "evictLoop i arr d = evictLoop (Suc i) arr (map_delete (fst (arr ! i)) d)"
      using True i by (subst evictLoop.simps) simp
    ultimately show ?thesis by simp
  next
    case False
    then have "evictLoop i arr d = Some d" by (subst evictLoop.simps) simp
    then show ?thesis by simp
  qed
qed

lemma dedupeCleanup_returns: "\<exists>r. dedupeCleanup now d = Some r"
  by (simp add: dedupeCleanup_def Let_def evictLoop_returns)

lemma evictLoop_subset: "evictLoop i arr d = Some r \<Longrightarrow> set r \<subseteq> set d"
proof (induction i arr d rule: evictLoop.induct)
  case (1 i arr d)
  show ?case
  proof (cases "int i < int (length d) - int DEDUPE_MAX")
    case True
    have e: "evictLoop i arr d
               = (if i < length arr
                  then evictLoop (Suc i) arr (map_delete (fst (arr ! i)) d) else None)"
      using True by (subst evictLoop.simps) simp
    show ?thesis
    proof (cases "i < length arr")
      case i: True
      with e "1.prems" have "evictLoop (Suc i) arr (map_delete (fst (arr ! i)) d) = Some r"
        by simp
      with True i have "set r \<subseteq> set (map_delete (fst (arr ! i)) d)" by (intro "1.IH")
      also have "\<dots> \<subseteq> set d" by (auto simp: map_delete_def)
      finally show ?thesis .
    next
      case False
      with e "1.prems" show ?thesis by simp
    qed
  next
    case False
    then have "evictLoop i arr d = Some d" by (subst evictLoop.simps) simp
    with "1.prems" show ?thesis by simp
  qed
qed

lemma dedupeCleanup_subset:
  assumes "dedupeCleanup now d = Some r"
  shows "set r \<subseteq> set d"
proof -
  let ?d1 = "filter (\<lambda>kv. \<not> (now - d_ts (snd kv) > DEDUPE_TTL_MS)) d"
  have "set r \<subseteq> set ?d1"
  proof (cases "length ?d1 > DEDUPE_MAX")
    case True
    with assms have "evictLoop 0 (sort_key (\<lambda>kv. d_ts (snd kv)) ?d1) ?d1 = Some r"
      by (simp add: dedupeCleanup_def Let_def)
    then show ?thesis by (rule evictLoop_subset)
  next
    case False
    with assms show ?thesis by (simp add: dedupeCleanup_def Let_def)
  qed
  then show ?thesis by auto
qed

lemma map_get_None_subset:
  assumes "set r \<subseteq> set d" "map_get d k = None"
  shows "map_get r k = None"
proof -
  from assms(2) have "k \<notin> fst ` set d" by (simp add: map_get_def map_of_eq_None_iff)
  with assms(1) have "k \<notin> fst ` set r" by auto
  then show ?thesis by (simp add: map_get_def map_of_eq_None_iff)
qed



subsection \<open>The sweep on a cache of 1002 fresh entries\<close>

lemma length_exCache: "length (exCache n) = n"
  by (simp add: exCache_def)

lemma exCache_fresh:
  "filter (\<lambda>kv. \<not> (0 - d_ts (snd kv) > DEDUPE_TTL_MS)) (exCache n) = exCache n"
  by (rule filter_True) (auto simp: exCache_def DEDUPE_TTL_MS_def)

lemma exCache_sorted:
  "sort_key (\<lambda>kv. d_ts (snd kv)) (exCache n) = exCache n"
  by (rule sort_key_id_if_sorted) (simp add: exCache_def o_def sorted_wrt_iff_nth_less)

lemma exCache_first: "0 < n \<Longrightarrow> fst (exCache n ! 0) = ''send:''"
  by (simp add: exCache_def)

lemma exCache_delete_first:
  "length (map_delete ''send:'' (exCache (Suc n))) = n"
proof -
  have "filter (\<lambda>m. replicate m (CHR ''k'') \<noteq> []) [0..<Suc n] = [Suc 0..<Suc n]"
  proof -
    have "[0..<Suc n] = 0 # [Suc 0..<Suc n]" by (simp add: upt_conv_Cons del: upt_Suc)
    moreover have "filter (\<lambda>m. replicate m (CHR ''k'') \<noteq> []) [Suc 0..<Suc n] = [Suc 0..<Suc n]"
      by (rule filter_True) auto
    ultimately show ?thesis by (simp del: upt_Suc)
  qed
  then show ?thesis
    by (simp add: map_delete_def exCache_def filter_map o_def del: upt_Suc)
qed

lemma dedupeCleanup_exCache:
  "map_option length (dedupeCleanup 0 (exCache (Suc (Suc DEDUPE_MAX)))) = Some (Suc DEDUPE_MAX)"
proof -
  let ?c = "exCache (Suc (Suc DEDUPE_MAX))"
  let ?d' = "map_delete ''send:'' ?c"
  have l: "length ?d' = Suc DEDUPE_MAX"
    by (rule exCache_delete_first)
  have 2: "evictLoop (Suc 0) ?c ?d' = Some ?d'"
    by (subst evictLoop.simps) (simp add: l)
  have 1: "evictLoop 0 ?c ?c = Some ?d'"
    by (subst evictLoop.simps) (simp add: length_exCache exCache_first 2)
  have "dedupeCleanup 0 ?c = Some ?d'"
    unfolding dedupeCleanup_def Let_def exCache_fresh exCache_sorted
    by (simp add: length_exCache 1)
  then show ?thesis
    by (simp add: l)
qed

text \<open>
  C4, the sweep at a cache over the cap. A cache of 1002 entries, none of them older than
  the TTL, is swept at time 0: the sweep returns and leaves 1001 entries, one more than
  \<open>DEDUPE_MAX\<close>. The loop bound \<open>dedupe.size - DEDUPE_MAX\<close> is read again at every
  test, after the map has shrunk, so the loop stops after half of the surplus.
\<close>

theorem dedupeCleanup_leaves_cache_over_cap:
  "length exFullCache = 1002 \<and> DEDUPE_MAX = 1000
   \<and> map_option length (dedupeCleanup 0 exFullCache) = Some 1001"
proof -
  have e: "exFullCache = exCache (Suc (Suc DEDUPE_MAX))"
    by (simp add: exFullCache_def DEDUPE_MAX_def)
  have "length exFullCache = 1002"
    by (simp add: exFullCache_def length_exCache)
  moreover have "DEDUPE_MAX = 1000"
    by (simp add: DEDUPE_MAX_def)
  moreover have "map_option length (dedupeCleanup 0 exFullCache) = Some 1001"
    unfolding e dedupeCleanup_exCache by (simp add: DEDUPE_MAX_def)
  ultimately show ?thesis by simp
qed

section \<open>The client's gap detection\<close>

lemma gapCalls_append [simp]: "gapCalls (xs @ ys) = gapCalls xs @ gapCalls ys"
  by (induction xs rule: gapCalls.induct) simp_all


lemma gapCalls_caught [simp]: "gapCalls [caught err] = []"
  by (simp add: caught_def)






subsection \<open>The state apart from the presence registry\<close>

lemma core_fields [simp]:
  "presenceVersion (core s) = presenceVersion s" "healthVersion (core s) = healthVersion s"
  "seq (core s) = seq s" "dedupe (core s) = dedupe s" "clients (core s) = clients s"
  "conns (core s) = conns s" "pending (core s) = pending s" "calls (core s) = calls s"
  "intervals (core s) = intervals s" "agentSub (core s) = agentSub s"
  "listening (core s) = listening s"
  by (simp_all add: core_def)

lemma core_update [simp]:
  "core (s\<lparr>reads := r\<rparr>) = core s" "core (s\<lparr>entries := e\<rparr>) = core s"
  "core (s\<lparr>presenceVersion := pv\<rparr>) = (core s)\<lparr>presenceVersion := pv\<rparr>"
  "core (s\<lparr>healthVersion := hv\<rparr>) = (core s)\<lparr>healthVersion := hv\<rparr>"
  "core (s\<lparr>seq := n\<rparr>) = (core s)\<lparr>seq := n\<rparr>"
  "core (s\<lparr>dedupe := d\<rparr>) = (core s)\<lparr>dedupe := d\<rparr>"
  "core (s\<lparr>clients := cl\<rparr>) = (core s)\<lparr>clients := cl\<rparr>"
  "core (s\<lparr>conns := cs\<rparr>) = (core s)\<lparr>conns := cs\<rparr>"
  "core (s\<lparr>pending := p\<rparr>) = (core s)\<lparr>pending := p\<rparr>"
  "core (s\<lparr>calls := ca\<rparr>) = (core s)\<lparr>calls := ca\<rparr>"
  "core (s\<lparr>intervals := b\<rparr>) = (core s)\<lparr>intervals := b\<rparr>"
  "core (s\<lparr>agentSub := b\<rparr>) = (core s)\<lparr>agentSub := b\<rparr>"
  "core (s\<lparr>listening := b\<rparr>) = (core s)\<lparr>listening := b\<rparr>"
  by (simp_all add: core_def)

lemma core_core [simp]: "core (core s) = core s"
  by (simp add: core_def)

lemma core_initSelfPresence [simp]: "core (initSelfPresence w s) = core s"
  by (simp add: initSelfPresence_def Date_now_def)

lemma core_ensureSelfPresence [simp]: "core (ensureSelfPresence w s) = core s"
  by (simp add: ensureSelfPresence_def)

lemma core_touchSelfPresence [simp]: "core (touchSelfPresence w s) = core s"
  by (simp add: touchSelfPresence_def Date_now_def split: option.splits)

lemma core_upsertPresence [simp]: "core (upsertPresence w k p s) = core s"
proof -
  have "core (upsertPresence w k p s) = core (ensureSelfPresence w s)"
    by (simp add: upsertPresence_def Date_now_def Let_def)
  then show ?thesis by simp
qed

lemma core_listSystemPresence [simp]: "core (snd (listSystemPresence w s)) = core s"
proof -
  have "core (snd (listSystemPresence w s)) = core (ensureSelfPresence w s)"
    by (simp add: listSystemPresence_def Date_now_def Let_def)
  then show ?thesis by simp
qed

lemma core_buildSnapshot [simp]: "core (snd (buildSnapshot w s)) = core s"
proof -
  have "core (snd (buildSnapshot w s)) = core (snd (listSystemPresence w s))"
    by (simp add: buildSnapshot_def process_uptime_def split_def Let_def)
  then show ?thesis by simp
qed

lemma core_updConn [simp]: "core (updConn i f s) = updConn i f (core s)"
  by (simp add: updConn_def)

lemma core_socketSend [simp]: "core (socketSend i f s) = socketSend i f (core s)"
  by (simp add: socketSend_def)

lemma core_socketClose [simp]: "core (socketClose i cd rs s) = socketClose i cd rs (core s)"
  by (simp add: socketClose_def)

lemma core_send [simp]: "core (send i f s) = send i f (core s)"
  by (simp add: send_def)

lemma core_respond [simp]: "core (respond i rid ok pl er s) = respond i rid ok pl er (core s)"
  by (simp add: respond_def)

lemma core_logError [simp]: "core (logError m s) = logError m (core s)"
  by (simp add: logError_def)

lemma core_close [simp]: "core (close i s) = close i (core s)"
  by (simp add: close_def Let_def updConn_def socketClose_def)

lemma core_deliver [simp]: "core (deliver f d i s) = deliver f d i (core s)"
  by (simp add: deliver_def Let_def)

lemma core_fold_deliver [simp]:
  "core (fold (deliver f d) cs s) = fold (deliver f d) cs (core s)"
  by (induction cs arbitrary: s) simp_all

lemma core_broadcast [simp]: "core (broadcast ev pl d sv s) = broadcast ev pl d sv (core s)"
  by (simp add: broadcast_def Let_def)

lemma core_dedupeSet [simp]:
  "core (dedupeSet w key ok pl er s)
     = (core s)\<lparr>dedupe := map_set key
                  \<lparr>d_ts = clock w (reads s), d_ok = ok, d_payload = pl, d_error = er\<rparr>
                  (dedupe s)\<rparr>"
  by (simp add: dedupeSet_def Date_now_def)

lemma core_eq_fields:
  assumes "core s' = t"
  shows "presenceVersion s' = presenceVersion t" "healthVersion s' = healthVersion t"
    "seq s' = seq t" "dedupe s' = dedupe t" "clients s' = clients t" "conns s' = conns t"
    "pending s' = pending t" "calls s' = calls t" "intervals s' = intervals t"
    "agentSub s' = agentSub t" "listening s' = listening t"
  using assms core_fields by metis+

subsection \<open>Fields a socket operation leaves alone\<close>

lemma updConn_fields [simp]:
  "reads (updConn i f s) = reads s" "entries (updConn i f s) = entries s"
  "presenceVersion (updConn i f s) = presenceVersion s"
  "healthVersion (updConn i f s) = healthVersion s"
  "seq (updConn i f s) = seq s" "dedupe (updConn i f s) = dedupe s"
  "clients (updConn i f s) = clients s" "pending (updConn i f s) = pending s"
  "calls (updConn i f s) = calls s" "intervals (updConn i f s) = intervals s"
  "agentSub (updConn i f s) = agentSub s" "listening (updConn i f s) = listening s"
  "conns (updConn i f s) = (conns s)[i := f (conns s ! i)]"
  by (simp_all add: updConn_def)

lemma socketSend_fields [simp]:
  "reads (socketSend i f s) = reads s" "entries (socketSend i f s) = entries s"
  "presenceVersion (socketSend i f s) = presenceVersion s"
  "healthVersion (socketSend i f s) = healthVersion s"
  "seq (socketSend i f s) = seq s" "dedupe (socketSend i f s) = dedupe s"
  "clients (socketSend i f s) = clients s" "pending (socketSend i f s) = pending s"
  "calls (socketSend i f s) = calls s" "intervals (socketSend i f s) = intervals s"
  "agentSub (socketSend i f s) = agentSub s" "listening (socketSend i f s) = listening s"
  "conns (socketSend i f s) = (conns s)[i := (conns s ! i)\<lparr>ops := ops (conns s ! i) @ [Sent f]\<rparr>]"
  by (simp_all add: socketSend_def)

lemma socketClose_fields [simp]:
  "reads (socketClose i cd rs s) = reads s" "entries (socketClose i cd rs s) = entries s"
  "presenceVersion (socketClose i cd rs s) = presenceVersion s"
  "healthVersion (socketClose i cd rs s) = healthVersion s"
  "seq (socketClose i cd rs s) = seq s" "dedupe (socketClose i cd rs s) = dedupe s"
  "clients (socketClose i cd rs s) = clients s" "pending (socketClose i cd rs s) = pending s"
  "calls (socketClose i cd rs s) = calls s" "intervals (socketClose i cd rs s) = intervals s"
  "agentSub (socketClose i cd rs s) = agentSub s" "listening (socketClose i cd rs s) = listening s"
  "conns (socketClose i cd rs s)
     = (conns s)[i := (conns s ! i)\<lparr>ops := ops (conns s ! i) @ [CloseCall cd rs]\<rparr>]"
  by (simp_all add: socketClose_def)

lemma logError_fields [simp]:
  "reads (logError m s) = reads s" "entries (logError m s) = entries s"
  "presenceVersion (logError m s) = presenceVersion s"
  "healthVersion (logError m s) = healthVersion s"
  "seq (logError m s) = seq s" "dedupe (logError m s) = dedupe s"
  "clients (logError m s) = clients s" "pending (logError m s) = pending s"
  "conns (logError m s) = conns s" "intervals (logError m s) = intervals s"
  "agentSub (logError m s) = agentSub s" "listening (logError m s) = listening s"
  "calls (logError m s) = calls s @ [LogError m]"
  by (simp_all add: logError_def)

lemma close_fields [simp]:
  "reads (close i s) = reads s" "entries (close i s) = entries s"
  "presenceVersion (close i s) = presenceVersion s"
  "healthVersion (close i s) = healthVersion s"
  "seq (close i s) = seq s" "dedupe (close i s) = dedupe s"
  "pending (close i s) = pending s"
  "calls (close i s) = calls s" "intervals (close i s) = intervals s"
  "agentSub (close i s) = agentSub s" "listening (close i s) = listening s"
  by (simp_all add: close_def Let_def)

lemma deliver_fields [simp]:
  "reads (deliver f d i s) = reads s" "entries (deliver f d i s) = entries s"
  "presenceVersion (deliver f d i s) = presenceVersion s"
  "healthVersion (deliver f d i s) = healthVersion s"
  "seq (deliver f d i s) = seq s" "dedupe (deliver f d i s) = dedupe s"
  "clients (deliver f d i s) = clients s" "pending (deliver f d i s) = pending s"
  "calls (deliver f d i s) = calls s" "intervals (deliver f d i s) = intervals s"
  "agentSub (deliver f d i s) = agentSub s" "listening (deliver f d i s) = listening s"
  "length (conns (deliver f d i s)) = length (conns s)"
  by (simp_all add: deliver_def Let_def)

lemma fold_deliver_fields [simp]:
  "reads (fold (deliver f d) cs s) = reads s" "entries (fold (deliver f d) cs s) = entries s"
  "presenceVersion (fold (deliver f d) cs s) = presenceVersion s"
  "healthVersion (fold (deliver f d) cs s) = healthVersion s"
  "seq (fold (deliver f d) cs s) = seq s" "dedupe (fold (deliver f d) cs s) = dedupe s"
  "clients (fold (deliver f d) cs s) = clients s" "pending (fold (deliver f d) cs s) = pending s"
  "calls (fold (deliver f d) cs s) = calls s" "intervals (fold (deliver f d) cs s) = intervals s"
  "agentSub (fold (deliver f d) cs s) = agentSub s" "listening (fold (deliver f d) cs s) = listening s"
  "length (conns (fold (deliver f d) cs s)) = length (conns s)"
  by (induction cs arbitrary: s; simp)+

lemma broadcast_fields [simp]:
  "reads (broadcast ev pl d sv s) = reads s" "entries (broadcast ev pl d sv s) = entries s"
  "presenceVersion (broadcast ev pl d sv s) = presenceVersion s"
  "healthVersion (broadcast ev pl d sv s) = healthVersion s"
  "seq (broadcast ev pl d sv s) = Suc (seq s)" "dedupe (broadcast ev pl d sv s) = dedupe s"
  "clients (broadcast ev pl d sv s) = clients s" "pending (broadcast ev pl d sv s) = pending s"
  "calls (broadcast ev pl d sv s) = calls s" "intervals (broadcast ev pl d sv s) = intervals s"
  "agentSub (broadcast ev pl d sv s) = agentSub s" "listening (broadcast ev pl d sv s) = listening s"
  "length (conns (broadcast ev pl d sv s)) = length (conns s)"
  by (simp_all add: broadcast_def Let_def)

subsection \<open>What a broadcast does to each socket\<close>

lemma deliver_other: "j \<noteq> i \<Longrightarrow> conns (deliver f d i s) ! j = conns s ! j"
  by (simp add: deliver_def Let_def)

lemma fold_deliver_other:
  "j \<notin> set cs \<Longrightarrow> conns (fold (deliver f d) cs s) ! j = conns s ! j"
  by (induction cs arbitrary: s) (auto simp: deliver_other)

lemma deliver_self:
  "i < length (conns s) \<Longrightarrow> conns (deliver f d i s) ! i = delivered f d (conns s ! i)"
  by (simp add: deliver_def delivered_def Let_def)

lemma fold_deliver_member:
  "distinct cs \<Longrightarrow> j \<in> set cs \<Longrightarrow> j < length (conns s) \<Longrightarrow>
   conns (fold (deliver f d) cs s) ! j = delivered f d (conns s ! j)"
proof (induction cs arbitrary: s)
  case Nil
  then show ?case by simp
next
  case (Cons c cs)
  show ?case
  proof (cases "j = c")
    case True
    with Cons.prems have "j \<notin> set cs" by simp
    then have "conns (fold (deliver f d) cs (deliver f d c s)) ! j = conns (deliver f d c s) ! j"
      by (rule fold_deliver_other)
    with True Cons.prems show ?thesis by (simp add: deliver_self)
  next
    case False
    with Cons.prems have "j \<in> set cs" "distinct cs" by simp_all
    then have "conns (fold (deliver f d) cs (deliver f d c s)) ! j
               = delivered f d (conns (deliver f d c s) ! j)"
      using Cons.prems by (intro Cons.IH) simp_all
    with False show ?thesis by (simp add: deliver_other)
  qed
qed

lemma broadcast_conns:
  assumes "distinct (clients s)" "j < length (conns s)"
  shows "conns (broadcast ev pl d sv s) ! j =
           (if j \<in> set (clients s)
            then delivered (EventFrame ev pl (Suc (seq s)) sv) d (conns s ! j)
            else conns s ! j)"
  using assms
  by (simp add: broadcast_def Let_def fold_deliver_member fold_deliver_other)

subsection \<open>Dispatch\<close>

lemma step_request: "ready s i \<Longrightarrow> step w (Message i (Parsed req)) s = handleRequest w i req s"
  by (auto simp: step_def onMessage_def ready_def)

lemma step_parse_error:
  "ready s i \<Longrightarrow>
   step w (Message i (ParseError err)) s = logError (''gateway: parse/handle error: '' @ err) s"
  by (auto simp: step_def onMessage_def ready_def catchHandler_def Let_def logError_def)

lemma handleRequest_system_event:
  "validateRequestFrame req \<Longrightarrow> strProp req ''method'' = ''system-event'' \<Longrightarrow>
   handleRequest w i req s = handleSystemEvent w i (strProp req ''id'') (getProp req ''params'') s"
  by (simp add: handleRequest_def Let_def)


lemma handleRequest_agent:
  "validateRequestFrame req \<Longrightarrow> strProp req ''method'' = ''agent'' \<Longrightarrow>
   handleRequest w i req s = handleAgent w i (strProp req ''id'') (getProp req ''params'') s"
  by (simp add: handleRequest_def Let_def)

subsection \<open>system-event\<close>




lemma core_handleSystemEvent:
  assumes "systemEventText w params = Some text" and "text \<noteq> []"
  shows "core (handleSystemEvent w i rid params s)
     = respond i rid True (Some OkTrue) None
         (broadcast ''presence'' (PresenceEvent (presenceAfterEvent w text s)) True
            (Some \<lparr>sv_presence = presenceVersion s + 1, sv_health = healthVersion s\<rparr>)
            ((core s)\<lparr>calls := calls s @ [EnqueueSystemEvent text],
                      presenceVersion := presenceVersion s + 1\<rparr>))"
proof -
  let ?text = "text"
  let ?s2 = "s\<lparr>calls := calls s @ [EnqueueSystemEvent ?text],
               presenceVersion := presenceVersion s + 1\<rparr>"
  let ?s3 = "snd (listSystemPresence w ?s2)"
  have 3: "core ?s3 = core ?s2" by simp
  have pv: "presenceVersion ?s3 = presenceVersion s + 1" "healthVersion ?s3 = healthVersion s"
    using core_eq_fields[OF 3] by simp_all
  have h: "handleSystemEvent w i rid params s
          = respond i rid True (Some OkTrue) None
              (broadcast ''presence'' (PresenceEvent (fst (listSystemPresence w ?s2))) True
                 (Some \<lparr>sv_presence = presenceVersion ?s3, sv_health = healthVersion ?s3\<rparr>) ?s3)"
    using assms by (simp add: handleSystemEvent_def Let_def split_def)
  show ?thesis
    unfolding h pv presenceAfterEvent_def by simp
qed

lemma nth_respond:
  "j < length (conns s) \<Longrightarrow>
   conns (respond i rid ok pl er s) ! j
     = (if j = i then (conns s ! j)\<lparr>ops := ops (conns s ! j) @ [Sent (ResFrame (JStr rid) ok pl er)]\<rparr>
        else conns s ! j)"
  by (simp add: respond_def send_def)

lemma respond_fields [simp]:
  "presenceVersion (respond i rid ok pl er s) = presenceVersion s"
  "healthVersion (respond i rid ok pl er s) = healthVersion s"
  "seq (respond i rid ok pl er s) = seq s" "dedupe (respond i rid ok pl er s) = dedupe s"
  "clients (respond i rid ok pl er s) = clients s" "pending (respond i rid ok pl er s) = pending s"
  "calls (respond i rid ok pl er s) = calls s"
  "length (conns (respond i rid ok pl er s)) = length (conns s)"
  by (simp_all add: respond_def send_def)

lemma ops_delivered:
  "ops (delivered f d c)
     = ops c @ (if bufferedAmount c > MAX_BUFFERED_BYTES
                then (if d then [] else [CloseCall 1008 (Some ''slow consumer'')])
                else [Sent f])"
  by (simp add: delivered_def)

lemma system_event_effect:
  assumes "ready s i" "wellFormed s" "validateRequestFrame req"
      and "strProp req ''method'' = ''system-event''"
      and "systemEventText w (getProp req ''params'') = Some text" "text \<noteq> []"
      and "s' = step w (Message i (Parsed req)) s"
  shows "calls s' = calls s @ [EnqueueSystemEvent text]"
    and "presenceVersion s' = presenceVersion s + 1"
    and "seq s' = seq s + 1"
    and "j < length (conns s) \<Longrightarrow>
         ops (conns s' ! j)
           = ops (conns s ! j)
             @ (if registered s j \<and> \<not> slow s j
                then [Sent (presenceFrame (presenceAfterEvent w text s) s)] else [])
             @ (if j = i then [Sent (ResFrame (JStr (strProp req ''id'')) True (Some OkTrue) None)]
                else [])"
proof -
  let ?b = "(core s)\<lparr>calls := calls s @ [EnqueueSystemEvent text],
                      presenceVersion := presenceVersion s + 1\<rparr>"
  have c: "core s'
     = respond i (strProp req ''id'') True (Some OkTrue) None
         (broadcast ''presence'' (PresenceEvent (presenceAfterEvent w text s)) True
            (Some \<lparr>sv_presence = presenceVersion s + 1, sv_health = healthVersion s\<rparr>) ?b)"
    using assms by (simp add: step_request handleRequest_system_event core_handleSystemEvent)
  show "calls s' = calls s @ [EnqueueSystemEvent text]"
    and "presenceVersion s' = presenceVersion s + 1" and "seq s' = seq s + 1"
    using core_eq_fields[OF c] by simp_all
  assume j: "j < length (conns s)"
  have d: "distinct (clients ?b)" using assms(2) by (simp add: wellFormed_def)
  let ?bc = "broadcast ''presence'' (PresenceEvent (presenceAfterEvent w text s)) True
            (Some \<lparr>sv_presence = presenceVersion s + 1, sv_health = healthVersion s\<rparr>) ?b"
  have bc: "conns ?bc ! j = (if j \<in> set (clients s)
                  then delivered (presenceFrame (presenceAfterEvent w text s) s) True (conns s ! j)
                  else conns s ! j)"
    using j broadcast_conns[OF d, of j] by (simp add: presenceFrame_def)
  have "conns s' ! j = conns (core s') ! j" by simp
  also have "\<dots> = (if j = i then (conns ?bc ! j)\<lparr>ops := ops (conns ?bc ! j) @ [Sent (ResFrame (JStr (strProp req ''id'')) True (Some OkTrue) None)]\<rparr>
          else conns ?bc ! j)"
    unfolding c using j by (subst nth_respond) simp_all
  finally show "ops (conns s' ! j)
           = ops (conns s ! j)
             @ (if registered s j \<and> \<not> slow s j
                then [Sent (presenceFrame (presenceAfterEvent w text s) s)] else [])
             @ (if j = i then [Sent (ResFrame (JStr (strProp req ''id'')) True (Some OkTrue) None)]
                else [])"
    unfolding bc by (simp add: ops_delivered registered_def slow_def)
qed

subsection \<open>The handshake, step by step\<close>

lemma core_init:
  "core (init w) =
     \<lparr>reads = 0, entries = [], presenceVersion = 1, healthVersion = 1, seq = 0,
      dedupe = [], clients = [], conns = [], pending = [], calls = [],
      intervals = True, agentSub = True, listening = True\<rparr>"
  by (simp add: init_def) (simp add: core_def)

lemma core_step_Connection:
  "listening s \<Longrightarrow>
   core (step w Connection s)
     = (core s)\<lparr>conns := conns s
                  @ [\<lparr>connId = uuid w (reads s), client = None, closed = False,
                      handshakeTimer = True, onError = True, onClose = True,
                      bufferedAmount = 0, ops = []\<rparr>]\<rparr>"
  by (simp add: step_def onConnection_def randomUUID_def)

lemma core_handleHello_accept:
  assumes "validateHello h" "\<not> numLess (numProp h ''maxProtocol'') (Finite (of_int PROTOCOL_VERSION))"
      and "\<not> numLess (Finite (of_int PROTOCOL_VERSION)) (numProp h ''minProtocol'')" "CLAWDIS_GATEWAY_TOKEN w = None"
  shows "\<exists>snap. core (handleHello w i h s)
           = (core s)\<lparr>presenceVersion := presenceVersion s + 1,
                       clients := clients s @ [i],
                       conns := (conns s)[i := (conns s ! i)\<lparr>client := Some h\<rparr>],
                       pending := pending s @ [HelloCont i snap],
                       calls := calls s @ [GetHealthSnapshot]\<rparr>"
proof -
  let ?s2 = "(updConn i (\<lambda>c. c\<lparr>client := Some h\<rparr>) s)\<lparr>clients := clients s @ [i]\<rparr>"
  let ?k = "presenceKey h (connId (conns ?s2 ! i))"
  let ?p = "\<lparr>u_host = Some (Some (hostname w)),
             u_version = Some (Some (envVersion w ''dev'')),
             u_mode = Some (optStr (optProp (getProp h ''client'') ''mode'')),
             u_reason = Some (Some ''connect''),
             u_instanceId = Some (optStr (optProp (getProp h ''client'') ''instanceId'')),
             u_text = None\<rparr>"
  let ?s3 = "upsertPresence w ?k ?p ?s2"
  let ?s4 = "?s3\<lparr>presenceVersion := presenceVersion ?s3 + 1\<rparr>"
  let ?s5 = "snd (buildSnapshot w ?s4)"
  have 5: "core ?s5 = (core ?s2)\<lparr>presenceVersion := presenceVersion s + 1\<rparr>"
    using core_eq_fields(1)[OF core_upsertPresence, of w ?k ?p ?s2] by simp
  have f: "calls ?s5 = calls s" "pending ?s5 = pending s"
    using core_eq_fields[OF 5] by simp_all
  have hh: "handleHello w i h s
          = ?s5\<lparr>calls := calls ?s5 @ [GetHealthSnapshot],
                pending := pending ?s5 @ [HelloCont i (fst (buildSnapshot w ?s4))]\<rparr>"
    using assms by (simp add: handleHello_def Let_def split_def)
  have "core (handleHello w i h s)
          = (core ?s5)\<lparr>calls := calls s @ [GetHealthSnapshot],
                pending := pending s @ [HelloCont i (fst (buildSnapshot w ?s4))]\<rparr>"
    unfolding hh f by (simp only: core_update)
  then show ?thesis
    unfolding 5 by (intro exI[of _ "fst (buildSnapshot w ?s4)"]) (simp add: updConn_def)
qed

lemma core_step_hello:
  assumes "i < length (conns s)" "\<not> closed (conns s ! i)" "client (conns s ! i) = None"
      and "validateHello h" "\<not> numLess (numProp h ''maxProtocol'') (Finite (of_int PROTOCOL_VERSION))"
      and "\<not> numLess (Finite (of_int PROTOCOL_VERSION)) (numProp h ''minProtocol'')" "CLAWDIS_GATEWAY_TOKEN w = None"
  shows "\<exists>snap. core (step w (Message i (Parsed h)) s)
           = (core s)\<lparr>presenceVersion := presenceVersion s + 1,
                       clients := clients s @ [i],
                       conns := (conns s)[i := (conns s ! i)\<lparr>client := Some h\<rparr>],
                       pending := pending s @ [HelloCont i snap],
                       calls := calls s @ [GetHealthSnapshot]\<rparr>"
  using core_handleHello_accept[OF assms(4-7), of i s] assms(1-3)
  by (simp add: step_def onMessage_def)

lemma core_step_helloOk:
  assumes "pending s = HelloCont i snap # rest"
  shows "core (step w (Resume 0 (HealthDone (Resolved hl))) s)
           = (core s)\<lparr>healthVersion := healthVersion s + 1,
                       conns := (conns s)[i := (conns s ! i)
                                  \<lparr>handshakeTimer := False,
                                   ops := ops (conns s ! i)
                                          @ [Sent (HelloOkFrame (helloOk w (connId (conns s ! i))
                                               (snap\<lparr>sn_health := hl,
                                                  sn_stateVersion := (sn_stateVersion snap)
                                                     \<lparr>sv_health := healthVersion s + 1\<rparr>\<rparr>)))]\<rparr>],
                       pending := rest\<rparr>"
  using assms
  by (cases "i < length (conns s)")
     (auto simp: step_def Let_def send_def socketSend_def updConn_def core_def list_update_beyond)

lemma exHello_accepted:
  "validateHello exHello" "\<not> numLess (numProp exHello ''maxProtocol'') (Finite (of_int PROTOCOL_VERSION))"
  "\<not> numLess (Finite (of_int PROTOCOL_VERSION)) (numProp exHello ''minProtocol'')" "CLAWDIS_GATEWAY_TOKEN exWorld = None"
  by (simp_all add: exHello_def validateHello_def validateClientDescriptor_def required_def
        optional_def numProp_def PROTOCOL_VERSION_def exWorld_def)


lemma core_handshake:
  assumes "listening s" "pending s = []" "CLAWDIS_GATEWAY_TOKEN w = None"
  shows "\<exists>snap. core (run w (exHandshake (length (conns s))) s)
           = (core s)\<lparr>presenceVersion := presenceVersion s + 1,
                       healthVersion := healthVersion s + 1,
                       clients := clients s @ [length (conns s)],
                       conns := conns s @ [readyConn w (uuid w (reads s)) snap],
                       calls := calls s @ [GetHealthSnapshot]\<rparr>"
proof -
  let ?n = "length (conns s)"
  let ?c = "\<lparr>connId = uuid w (reads s), client = None, closed = False,
             handshakeTimer = True, onError = True, onClose = True,
             bufferedAmount = 0, ops = []\<rparr>"
  let ?s1 = "step w Connection s"
  let ?s2 = "step w (Message ?n (Parsed exHello)) ?s1"
  let ?s3 = "step w (Resume 0 (HealthDone (Resolved (JObj [])))) ?s2"
  have 1: "core ?s1 = (core s)\<lparr>conns := conns s @ [?c]\<rparr>"
    using assms(1) by (rule core_step_Connection)
  note f1 = core_eq_fields[OF 1]
  have c1: "conns ?s1 ! ?n = ?c" "?n < length (conns ?s1)"
    by (simp_all add: f1)
  have "\<exists>snap. core ?s2
           = (core ?s1)\<lparr>presenceVersion := presenceVersion ?s1 + 1,
                       clients := clients ?s1 @ [?n],
                       conns := (conns ?s1)[?n := (conns ?s1 ! ?n)\<lparr>client := Some exHello\<rparr>],
                       pending := pending ?s1 @ [HelloCont ?n snap],
                       calls := calls ?s1 @ [GetHealthSnapshot]\<rparr>"
    using c1 exHello_accepted(1-3) assms(3) by (intro core_step_hello) simp_all
  then obtain snap where 2: "core ?s2
           = (core s)\<lparr>presenceVersion := presenceVersion s + 1,
                       clients := clients s @ [?n],
                       conns := conns s @ [?c\<lparr>client := Some exHello\<rparr>],
                       pending := [HelloCont ?n snap],
                       calls := calls s @ [GetHealthSnapshot]\<rparr>"
    unfolding 1 c1 by (auto simp: f1 assms(2))
  note f2 = core_eq_fields[OF 2]
  have p2: "pending ?s2 = HelloCont ?n snap # []" by (simp add: f2)
  let ?snap = "snap\<lparr>sn_health := JObj [],
                     sn_stateVersion := (sn_stateVersion snap)\<lparr>sv_health := healthVersion ?s2 + 1\<rparr>\<rparr>"
  have 3: "core ?s3 = (core s)\<lparr>presenceVersion := presenceVersion s + 1,
                       healthVersion := healthVersion s + 1,
                       clients := clients s @ [?n],
                       conns := conns s @ [readyConn w (uuid w (reads s)) ?snap],
                       calls := calls s @ [GetHealthSnapshot]\<rparr>"
    unfolding core_step_helloOk[OF p2] 2
    by (intro proc.equality) (simp_all add: f2 readyConn_def assms(2))
  have "run w (exHandshake ?n) s = ?s3" by (simp add: run_def exHandshake_def)
  with 3 show ?thesis by metis
qed

lemma init_fields [simp]:
  "presenceVersion (init w) = 1" "healthVersion (init w) = 1" "seq (init w) = 0"
  "dedupe (init w) = []" "clients (init w) = []" "conns (init w) = []" "pending (init w) = []"
  "calls (init w) = []" "intervals (init w)" "agentSub (init w)" "listening (init w)"
  using core_eq_fields[OF core_init, of w] by simp_all

lemma reads_init: "reads (init w) = 1"
  by (simp add: init_def initSelfPresence_def Date_now_def)

lemma core_exReady:
  "\<exists>snap. core exReady =
     \<lparr>reads = 0, entries = [], presenceVersion = 2, healthVersion = 2, seq = 0,
      dedupe = [], clients = [0], conns = [readyConn exWorld (uuid exWorld 1) snap],
      pending = [], calls = [GetHealthSnapshot],
      intervals = True, agentSub = True, listening = True\<rparr>"
proof -
  have "\<exists>snap. core exReady
           = (core (init exWorld))\<lparr>presenceVersion := presenceVersion (init exWorld) + 1,
                       healthVersion := healthVersion (init exWorld) + 1,
                       clients := clients (init exWorld) @ [0],
                       conns := conns (init exWorld)
                                @ [readyConn exWorld (uuid exWorld (reads (init exWorld))) snap],
                       calls := calls (init exWorld) @ [GetHealthSnapshot]\<rparr>"
    unfolding exReady_def using core_handshake[of "init exWorld" exWorld]
    by (simp add: exHello_accepted)
  then obtain snap where "core exReady
           = (core (init exWorld))\<lparr>presenceVersion := presenceVersion (init exWorld) + 1,
                       healthVersion := healthVersion (init exWorld) + 1,
                       clients := clients (init exWorld) @ [0],
                       conns := conns (init exWorld)
                                @ [readyConn exWorld (uuid exWorld (reads (init exWorld))) snap],
                       calls := calls (init exWorld) @ [GetHealthSnapshot]\<rparr>" ..
  then have "core exReady =
     \<lparr>reads = 0, entries = [], presenceVersion = 2, healthVersion = 2, seq = 0,
      dedupe = [], clients = [0], conns = [readyConn exWorld (uuid exWorld 1) snap],
      pending = [], calls = [GetHealthSnapshot],
      intervals = True, agentSub = True, listening = True\<rparr>"
    by (simp add: core_init reads_init)
  then show ?thesis ..
qed

lemma exReady_facts:
  "presenceVersion exReady = 2" "healthVersion exReady = 2" "seq exReady = 0"
  "dedupe exReady = []" "clients exReady = [0]" "length (conns exReady) = 1"
  "pending exReady = []" "calls exReady = [GetHealthSnapshot]" "intervals exReady"
  "agentSub exReady" "listening exReady"
  "client (conns exReady ! 0) = Some exHello" "\<not> closed (conns exReady ! 0)"
  "bufferedAmount (conns exReady ! 0) = 0"
  "sentTypes (ops (conns exReady ! 0)) = [''hello-ok'']"
  "eventSeqs (ops (conns exReady ! 0)) = []" "closeCalls (ops (conns exReady ! 0)) = []"
proof -
  obtain snap where c: "core exReady =
     \<lparr>reads = 0, entries = [], presenceVersion = 2, healthVersion = 2, seq = 0,
      dedupe = [], clients = [0], conns = [readyConn exWorld (uuid exWorld 1) snap],
      pending = [], calls = [GetHealthSnapshot],
      intervals = True, agentSub = True, listening = True\<rparr>"
    using core_exReady ..
  note f = core_eq_fields[OF c]
  show "presenceVersion exReady = 2" "healthVersion exReady = 2" "seq exReady = 0"
  "dedupe exReady = []" "clients exReady = [0]" "length (conns exReady) = 1"
  "pending exReady = []" "calls exReady = [GetHealthSnapshot]" "intervals exReady"
  "agentSub exReady" "listening exReady"
  "client (conns exReady ! 0) = Some exHello" "\<not> closed (conns exReady ! 0)"
  "bufferedAmount (conns exReady ! 0) = 0"
  "sentTypes (ops (conns exReady ! 0)) = [''hello-ok'']"
  "eventSeqs (ops (conns exReady ! 0)) = []" "closeCalls (ops (conns exReady ! 0)) = []"
    by (simp_all add: f readyConn_def)
qed

lemma exReady_ready: "ready exReady 0" "wellFormed exReady" "registered exReady 0"
  "\<not> slow exReady 0"
  by (simp_all add: ready_def wellFormed_def registered_def slow_def exReady_facts
        MAX_BUFFERED_BYTES_def)

lemma sentTypes_append [simp]: "sentTypes (xs @ ys) = sentTypes xs @ sentTypes ys"
  by (induction xs rule: sentTypes.induct) simp_all

lemma closeCalls_append [simp]: "closeCalls (xs @ ys) = closeCalls xs @ closeCalls ys"
  by (induction xs rule: closeCalls.induct) simp_all

lemma eventSeqs_append [simp]: "eventSeqs (xs @ ys) = eventSeqs xs @ eventSeqs ys"
  by (induction xs rule: eventSeqs.induct) simp_all

lemma exSystemEvent_valid:
  "validateRequestFrame (exSystemEvent rid text) = (rid \<noteq> [])"
  "strProp (exSystemEvent rid text) ''method'' = ''system-event''"
  "strProp (exSystemEvent rid text) ''id'' = rid"
  "getProp (exSystemEvent rid text) ''params'' = Some (JObj [(''text'', JStr text)])"
  "systemEventText w (Some (JObj [(''text'', JStr text)])) = Some (trim text)"
  by (simp_all add: exSystemEvent_def exReq_def validateRequestFrame_def required_def
        strProp_def systemEventText_def)

lemma trim_examples: "trim ''note'' = ''note''" "trim '' '' = []" "trim '' note '' = ''note''"
  by (simp_all add: trim_def isWhiteSpace_def)


text \<open>
  C5, as the code has it. A \<open>system-event\<close> request is accepted when \<open>String(params.text)\<close>
  returns, with a text that is not empty once trimmed. For every accepted request the
  originating connection is sent the presence event frame of the resulting broadcast,
  when it is registered and not slow, and then the \<open>res\<close> frame of the request: the
  handler calls \<open>broadcast\<close> first and \<open>respond\<close> after, so the broadcast precedes the
  \<open>res\<close>.
\<close>

theorem system_event_presence_then_res:
  assumes "ready s i" and "wellFormed s" and "validateRequestFrame req"
      and "strProp req ''method'' = ''system-event''"
      and "systemEventText w (getProp req ''params'') = Some text" and "text \<noteq> []"
  shows "ops (conns (step w (Message i (Parsed req)) s) ! i)
           = ops (conns s ! i)
             @ (if registered s i \<and> \<not> slow s i
                then [Sent (presenceFrame (presenceAfterEvent w text s) s)]
                else [])
             @ [Sent (ResFrame (JStr (strProp req ''id'')) True (Some OkTrue) None)]"
  using system_event_effect(4)[OF assms(1-6) refl, of i] assms(1)
  by (simp add: ready_def)

theorem system_event_presence_then_res_witness:
  "ready exReady 0 \<and> wellFormed exReady
   \<and> validateRequestFrame (exSystemEvent ''e1'' ''note'')
   \<and> strProp (exSystemEvent ''e1'' ''note'') ''method'' = ''system-event''
   \<and> systemEventText exWorld (getProp (exSystemEvent ''e1'' ''note'') ''params'') = Some ''note''
   \<and> ops (conns (step exWorld (Message 0 (Parsed (exSystemEvent ''e1'' ''note''))) exReady) ! 0)
       = ops (conns exReady ! 0)
         @ [Sent (presenceFrame (presenceAfterEvent exWorld ''note'' exReady) exReady),
            Sent (ResFrame (JStr ''e1'') True (Some OkTrue) None)]"
  using system_event_presence_then_res[of exReady 0 "exSystemEvent ''e1'' ''note''" exWorld "''note''"]
  by (simp add: exReady_ready exSystemEvent_valid trim_examples)

text \<open>
  On the connection of \<open>exReady\<close> the frames sent after an accepted \<open>system-event\<close> are the
  \<open>hello-ok\<close> of the handshake, the presence event, and the \<open>res\<close> last.
\<close>

theorem system_event_res_not_first:
  "sentTypes (ops (conns (step exWorld (Message 0 (Parsed (exSystemEvent ''e1'' ''note''))) exReady) ! 0))
     = [''hello-ok'', ''event'', ''res'']"
  using system_event_effect(4)[of exReady 0 "exSystemEvent ''e1'' ''note''" exWorld "''note''" _ 0]
  by (simp add: exReady_ready exSystemEvent_valid trim_examples exReady_facts presenceFrame_def)

subsection \<open>send and agent: the cache lookup, the call, the completion\<close>





lemma core_handleAgent_miss:
  assumes "validateAgentParams p" "p = nullish params (JObj [])"
      and "map_get (dedupe s) (''agent:'' @ strProp p ''idempotencyKey'') = None"
      and "optStr (getProp p ''sessionId'') = None"
  shows "core (handleAgent w i rid params s)
           = (socketSend i (EventFrame ''agent'' (AgentAccepted (uuid w (reads s))) (seq s + 1) None)
                (core s))
               \<lparr>seq := seq s + 1,
                calls := calls s @ [AgentCommand (agentOpts w p)],
                pending := pending s
                           @ [AgentCont i rid (strProp p ''idempotencyKey'') (uuid w (reads s))]\<rparr>"
  using assms
  by (simp add: handleAgent_def Let_def randomUUID_def agentOpts_def socketSend_def updConn_def)

lemma step_resume_head:
  "pending s = c # rest \<Longrightarrow> fits c r \<Longrightarrow>
   step w (Resume 0 r) s = resume w c r (s\<lparr>pending := rest\<rparr>)"
  by (simp add: step_def)

lemma core_resume_agent_ok:
  "core (resume w (AgentCont i rid idem runId) (AgentDone (Resolved u)) s)
     = respond i rid True (Some (AgentResult runId ''ok'' ''completed'')) None
         ((core s)\<lparr>dedupe := map_set (''agent:'' @ idem)
                      \<lparr>d_ts = clock w (reads s), d_ok = True,
                       d_payload = Some (AgentResult runId ''ok'' ''completed''),
                       d_error = None\<rparr> (dedupe s)\<rparr>)"
  by (simp add: Let_def)


lemma exAgent_valid:
  "validateRequestFrame (exAgent rid) = (rid \<noteq> [])"
  "strProp (exAgent rid) ''method'' = ''agent''"
  "strProp (exAgent rid) ''id'' = rid"
  "getProp (exAgent rid) ''params''
     = Some (JObj [(''message'', JStr ''hi''), (''idempotencyKey'', JStr ''I'')])"
  "paramsOf (exAgent rid) = JObj [(''message'', JStr ''hi''), (''idempotencyKey'', JStr ''I'')]"
  "validateAgentParams (JObj [(''message'', JStr ''hi''), (''idempotencyKey'', JStr ''I'')])"
  "strProp (JObj [(''message'', JStr ''hi''), (''idempotencyKey'', JStr ''I'')]) ''idempotencyKey'' = ''I''"
  "optStr (getProp (JObj [(''message'', JStr ''hi''), (''idempotencyKey'', JStr ''I'')]) ''sessionId'') = None"
  by (simp_all add: exAgent_def exReq_def validateRequestFrame_def validateAgentParams_def
        required_def optional_def strProp_def paramsOf_def)


lemma ready_core [simp]: "ready (core s) i = ready s i"
  by (simp add: ready_def)

lemma core_exAgentDone:
  "core exAgentDone
     = respond 0 ''ag1'' True (Some (AgentResult exRunId ''ok'' ''completed'')) None
         ((socketSend 0 (EventFrame ''agent'' (AgentAccepted exRunId) 1 None) (core exReady))
            \<lparr>seq := 1,
             calls := calls exReady @ [AgentCommand (agentOpts exWorld (paramsOf (exAgent ''ag1'')))],
             pending := [],
             dedupe := [(''agent:I'',
                         \<lparr>d_ts = 1000, d_ok = True,
                          d_payload = Some (AgentResult exRunId ''ok'' ''completed''),
                          d_error = None\<rparr>)]\<rparr>)"
proof -
  let ?s1 = "step exWorld (Message 0 (Parsed (exAgent ''ag1''))) exReady"
  let ?p = "paramsOf (exAgent ''ag1'')"
  have s1: "?s1 = handleAgent exWorld 0 ''ag1'' (getProp (exAgent ''ag1'') ''params'') exReady"
    by (simp add: step_request exReady_ready handleRequest_agent exAgent_valid)
  have 1: "core ?s1
     = (socketSend 0 (EventFrame ''agent'' (AgentAccepted exRunId) 1 None) (core exReady))
         \<lparr>seq := 1, calls := calls exReady @ [AgentCommand (agentOpts exWorld ?p)],
          pending := [AgentCont 0 ''ag1'' ''I'' exRunId]\<rparr>"
    unfolding s1
    by (subst core_handleAgent_miss[where p = ?p])
       (simp_all add: exAgent_valid exReady_facts map_get_def exRunId_def)
  note f1 = core_eq_fields[OF 1]
  have p1: "pending ?s1 = AgentCont 0 ''ag1'' ''I'' exRunId # []"
    by (simp add: f1)
  have e: "exAgentDone = resume exWorld (AgentCont 0 ''ag1'' ''I'' exRunId) (AgentDone (Resolved ()))
                        (?s1\<lparr>pending := []\<rparr>)"
    unfolding exAgentDone_def run_def using step_resume_head[OF p1] by simp
  show ?thesis
    unfolding e core_resume_agent_ok
    by (simp add: 1 f1 exReady_facts exWorld_sel)
qed


subsection \<open>Two clients, and a client that stops reading\<close>

lemma core_exReady2:
  "\<exists>snap snap'. core exReady2 =
     \<lparr>reads = 0, entries = [], presenceVersion = 3, healthVersion = 3, seq = 0,
      dedupe = [], clients = [0, 1],
      conns = [readyConn exWorld (uuid exWorld 1) snap,
               readyConn exWorld (uuid exWorld (reads exReady)) snap'],
      pending = [], calls = [GetHealthSnapshot, GetHealthSnapshot],
      intervals = True, agentSub = True, listening = True\<rparr>"
proof -
  obtain snap where c: "core exReady =
     \<lparr>reads = 0, entries = [], presenceVersion = 2, healthVersion = 2, seq = 0,
      dedupe = [], clients = [0], conns = [readyConn exWorld (uuid exWorld 1) snap],
      pending = [], calls = [GetHealthSnapshot],
      intervals = True, agentSub = True, listening = True\<rparr>"
    using core_exReady ..
  note f = core_eq_fields[OF c]
  have "\<exists>snap'. core (run exWorld (exHandshake (length (conns exReady))) exReady)
           = (core exReady)\<lparr>presenceVersion := presenceVersion exReady + 1,
                       healthVersion := healthVersion exReady + 1,
                       clients := clients exReady @ [length (conns exReady)],
                       conns := conns exReady
                                @ [readyConn exWorld (uuid exWorld (reads exReady)) snap'],
                       calls := calls exReady @ [GetHealthSnapshot]\<rparr>"
    by (rule core_handshake) (simp_all add: exReady_facts exHello_accepted)
  then obtain snap' where
    "core (run exWorld (exHandshake (length (conns exReady))) exReady)
           = (core exReady)\<lparr>presenceVersion := presenceVersion exReady + 1,
                       healthVersion := healthVersion exReady + 1,
                       clients := clients exReady @ [length (conns exReady)],
                       conns := conns exReady
                                @ [readyConn exWorld (uuid exWorld (reads exReady)) snap'],
                       calls := calls exReady @ [GetHealthSnapshot]\<rparr>" ..
  then have "core exReady2 =
     \<lparr>reads = 0, entries = [], presenceVersion = 3, healthVersion = 3, seq = 0,
      dedupe = [], clients = [0, 1],
      conns = [readyConn exWorld (uuid exWorld 1) snap,
               readyConn exWorld (uuid exWorld (reads exReady)) snap'],
      pending = [], calls = [GetHealthSnapshot, GetHealthSnapshot],
      intervals = True, agentSub = True, listening = True\<rparr>"
    unfolding exReady2_def by (simp add: exReady_facts c f)
  then show ?thesis by blast
qed

lemma exReady2_facts:
  "presenceVersion exReady2 = 3" "healthVersion exReady2 = 3" "seq exReady2 = 0"
  "dedupe exReady2 = []" "clients exReady2 = [0, 1]" "length (conns exReady2) = 2"
  "pending exReady2 = []" "calls exReady2 = [GetHealthSnapshot, GetHealthSnapshot]"
  "intervals exReady2" "agentSub exReady2" "listening exReady2"
  "client (conns exReady2 ! 0) = Some exHello" "\<not> closed (conns exReady2 ! 0)"
  "client (conns exReady2 ! 1) = Some exHello" "\<not> closed (conns exReady2 ! 1)"
  "client (conns exReady2 ! Suc 0) = Some exHello" "\<not> closed (conns exReady2 ! Suc 0)"
  "bufferedAmount (conns exReady2 ! 0) = 0" "bufferedAmount (conns exReady2 ! 1) = 0"
  "bufferedAmount (conns exReady2 ! Suc 0) = 0"
  "onClose (conns exReady2 ! 1)" "onClose (conns exReady2 ! Suc 0)"
  "sentTypes (ops (conns exReady2 ! 0)) = [''hello-ok'']"
  "sentTypes (ops (conns exReady2 ! 1)) = [''hello-ok'']"
  "eventSeqs (ops (conns exReady2 ! 0)) = []" "eventSeqs (ops (conns exReady2 ! 1)) = []"
  "eventSeqs (ops (conns exReady2 ! Suc 0)) = []"
  "closeCalls (ops (conns exReady2 ! 0)) = []" "closeCalls (ops (conns exReady2 ! 1)) = []"
proof -
  obtain snap snap' where c: "core exReady2 =
     \<lparr>reads = 0, entries = [], presenceVersion = 3, healthVersion = 3, seq = 0,
      dedupe = [], clients = [0, 1],
      conns = [readyConn exWorld (uuid exWorld 1) snap,
               readyConn exWorld (uuid exWorld (reads exReady)) snap'],
      pending = [], calls = [GetHealthSnapshot, GetHealthSnapshot],
      intervals = True, agentSub = True, listening = True\<rparr>"
    using core_exReady2 by blast
  note f = core_eq_fields[OF c]
  show "presenceVersion exReady2 = 3" "healthVersion exReady2 = 3" "seq exReady2 = 0"
  "dedupe exReady2 = []" "clients exReady2 = [0, 1]" "length (conns exReady2) = 2"
  "pending exReady2 = []" "calls exReady2 = [GetHealthSnapshot, GetHealthSnapshot]"
  "intervals exReady2" "agentSub exReady2" "listening exReady2"
  "client (conns exReady2 ! 0) = Some exHello" "\<not> closed (conns exReady2 ! 0)"
  "client (conns exReady2 ! 1) = Some exHello" "\<not> closed (conns exReady2 ! 1)"
  "client (conns exReady2 ! Suc 0) = Some exHello" "\<not> closed (conns exReady2 ! Suc 0)"
  "bufferedAmount (conns exReady2 ! 0) = 0" "bufferedAmount (conns exReady2 ! 1) = 0"
  "bufferedAmount (conns exReady2 ! Suc 0) = 0"
  "onClose (conns exReady2 ! 1)" "onClose (conns exReady2 ! Suc 0)"
  "sentTypes (ops (conns exReady2 ! 0)) = [''hello-ok'']"
  "sentTypes (ops (conns exReady2 ! 1)) = [''hello-ok'']"
  "eventSeqs (ops (conns exReady2 ! 0)) = []" "eventSeqs (ops (conns exReady2 ! 1)) = []"
  "eventSeqs (ops (conns exReady2 ! Suc 0)) = []"
  "closeCalls (ops (conns exReady2 ! 0)) = []" "closeCalls (ops (conns exReady2 ! 1)) = []"
    by (simp_all add: f readyConn_def)
qed

lemma exReady2_ready: "ready exReady2 0" "ready exReady2 1" "ready exReady2 (Suc 0)"
  "wellFormed exReady2"
  "registered exReady2 0" "registered exReady2 1" "\<not> slow exReady2 0" "\<not> slow exReady2 1"
  by (simp_all add: ready_def wellFormed_def registered_def slow_def exReady2_facts
        MAX_BUFFERED_BYTES_def)

lemma step_Buffered:
  "i < length (conns s) \<Longrightarrow>
   step w (Buffered i n) s = updConn i (\<lambda>c. c\<lparr>bufferedAmount := n\<rparr>) s"
  by (simp add: step_def)

lemma exSlow_eq: "exSlow = updConn 0 (\<lambda>c. c\<lparr>bufferedAmount := 2000000\<rparr>) exReady"
  unfolding exSlow_def by (rule step_Buffered) (simp add: exReady_facts)

lemma exSlow_facts:
  "ready exSlow 0" "wellFormed exSlow" "registered exSlow 0" "slow exSlow 0"
  "length (conns exSlow) = 1" "agentSub exSlow"
  "ops (conns exSlow ! 0) = ops (conns exReady ! 0)"
  using exReady_ready
  by (simp_all add: exSlow_eq ready_def wellFormed_def registered_def slow_def updConn_def
        exReady_facts MAX_BUFFERED_BYTES_def)

lemma exSlow2_eq: "exSlow2 = updConn 0 (\<lambda>c. c\<lparr>bufferedAmount := 2000000\<rparr>) exReady2"
  unfolding exSlow2_def by (rule step_Buffered) (simp add: exReady2_facts)

lemma exSlow2_facts:
  "ready exSlow2 0" "ready exSlow2 1" "ready exSlow2 (Suc 0)" "wellFormed exSlow2"
  "registered exSlow2 0" "slow exSlow2 0"
  "length (conns exSlow2) = 2" "agentSub exSlow2"
  "onClose (conns exSlow2 ! 1)" "onClose (conns exSlow2 ! Suc 0)"
  "client (conns exSlow2 ! 1) = Some exHello" "client (conns exSlow2 ! Suc 0) = Some exHello"
  "ops (conns exSlow2 ! 0) = ops (conns exReady2 ! 0)"
  using exReady2_ready
  by (simp_all add: exSlow2_eq ready_def wellFormed_def registered_def slow_def updConn_def
        exReady2_facts MAX_BUFFERED_BYTES_def)

subsection \<open>A parse failure after the handshake\<close>

text \<open>
  C6, a message that is not JSON on a connection whose handshake is complete. On the
  ready connection of \<open>exReady\<close> the handler logs the error and does nothing else: the
  state is the old one with one more log call, no frame is sent on the socket (the only
  frame ever sent stays the \<open>hello-ok\<close>) and the socket is not closed. The \<open>catch\<close> block
  carries the comment "If still in handshake, close; otherwise respond error", and has
  no code for the second half.
\<close>

theorem parse_error_sends_nothing:
  "step exWorld (Message 0 (ParseError ''SyntaxError: Unexpected token h in JSON'')) exReady
     = logError ''gateway: parse/handle error: SyntaxError: Unexpected token h in JSON'' exReady
   \<and> ops (conns (step exWorld
                    (Message 0 (ParseError ''SyntaxError: Unexpected token h in JSON'')) exReady) ! 0)
       = ops (conns exReady ! 0)
   \<and> sentTypes (ops (conns (step exWorld
                    (Message 0 (ParseError ''SyntaxError: Unexpected token h in JSON'')) exReady) ! 0))
       = [''hello-ok'']
   \<and> ready exReady 0"
  by (simp add: step_parse_error exReady_ready exReady_facts)

subsection \<open>system-event\<close>




subsection \<open>A cached agent request\<close>

lemma exAgentDone_facts:
  "ready exAgentDone 0"
  "map_get (dedupe exAgentDone) ''agent:I''
     = Some \<lparr>d_ts = 1000, d_ok = True,
             d_payload = Some (AgentResult exRunId ''ok'' ''completed''), d_error = None\<rparr>"
  "seq exAgentDone = 1"
  "calls exAgentDone = [GetHealthSnapshot, AgentCommand (agentOpts exWorld (paramsOf (exAgent ''ag1'')))]"
proof -
  note f = core_eq_fields[OF core_exAgentDone]
  show "ready exAgentDone 0"
    unfolding ready_def f
    by (simp add: respond_def send_def socketSend_def updConn_def exReady_facts)
  show "map_get (dedupe exAgentDone) ''agent:I''
     = Some \<lparr>d_ts = 1000, d_ok = True,
             d_payload = Some (AgentResult exRunId ''ok'' ''completed''), d_error = None\<rparr>"
    unfolding f by (simp add: map_get_def)
  show "seq exAgentDone = 1" unfolding f by simp
  show "calls exAgentDone
          = [GetHealthSnapshot, AgentCommand (agentOpts exWorld (paramsOf (exAgent ''ag1'')))]"
    unfolding f by (simp add: exReady_facts)
qed

text \<open>
  C10, an \<open>agent\<close> request whose key is cached. A valid \<open>agent\<close> request arrives on a
  ready connection and the cache holds an entry under \<open>agent:<idempotencyKey>\<close>. The whole
  step is one \<open>socket.send\<close> of a \<open>res\<close> frame with the cached \<open>ok\<close>, \<open>payload\<close> and
  \<open>error\<close> on the requesting socket: no \<open>agent\<close> event is sent, \<open>seq\<close> is not advanced,
  the agent command is not called, nothing is suspended.
\<close>

theorem agent_cached_replay:
  assumes "ready s i" and "validateRequestFrame req" and "strProp req ''method'' = ''agent''"
      and "validateAgentParams (paramsOf req)"
      and "map_get (dedupe s) (''agent:'' @ strProp (paramsOf req) ''idempotencyKey'')
             = Some cached"
  shows "step w (Message i (Parsed req)) s
           = socketSend i (ResFrame (JStr (strProp req ''id''))
                             (d_ok cached) (d_payload cached) (d_error cached)) s"
  using assms
  by (simp add: step_request handleRequest_agent handleAgent_def paramsOf_def Let_def
        respond_def send_def)

theorem agent_cached_replay_witness:
  "ready exAgentDone 0 \<and> validateRequestFrame (exAgent ''ag2'')
   \<and> validateAgentParams (paramsOf (exAgent ''ag2''))
   \<and> step exWorld (Message 0 (Parsed (exAgent ''ag2''))) exAgentDone
       = socketSend 0 (ResFrame (JStr ''ag2'') True
                         (Some (AgentResult exRunId ''ok'' ''completed'')) None) exAgentDone
   \<and> seq (step exWorld (Message 0 (Parsed (exAgent ''ag2''))) exAgentDone) = seq exAgentDone
   \<and> calls (step exWorld (Message 0 (Parsed (exAgent ''ag2''))) exAgentDone)
       = calls exAgentDone"
  using agent_cached_replay[of exAgentDone 0 "exAgent ''ag2''" _ exWorld,
          OF exAgentDone_facts(1)]
  by (simp add: exAgent_valid exAgentDone_facts)

subsection \<open>Broadcasts and slow consumers\<close>

lemma upsertPresence_fields [simp]:
  "presenceVersion (upsertPresence w k p s) = presenceVersion s"
  "healthVersion (upsertPresence w k p s) = healthVersion s"
  "seq (upsertPresence w k p s) = seq s" "conns (upsertPresence w k p s) = conns s"
  "clients (upsertPresence w k p s) = clients s"
  using core_eq_fields[OF core_upsertPresence, of w k p s] by simp_all

lemma listSystemPresence_fields [simp]:
  "presenceVersion (snd (listSystemPresence w s)) = presenceVersion s"
  "healthVersion (snd (listSystemPresence w s)) = healthVersion s"
  "seq (snd (listSystemPresence w s)) = seq s" "conns (snd (listSystemPresence w s)) = conns s"
  "clients (snd (listSystemPresence w s)) = clients s"
  using core_eq_fields[OF core_listSystemPresence, of w s] by simp_all

lemma conns_close_other: "j \<noteq> i \<Longrightarrow> conns (close i s) ! j = conns s ! j"
  by (simp add: close_def Let_def updConn_def socketClose_def)

lemma onSocketClose_registered:
  assumes "i < length (conns s)" and "client (conns s ! i) = Some hello"
  shows "\<exists>pl sv t. onSocketClose w i s = close i (broadcast ''presence'' pl True sv t)
           \<and> conns t = (conns s)[i := (conns s ! i)\<lparr>onClose := False\<rparr>]
           \<and> clients t = clients s \<and> seq t = seq s"
proof -
  let ?s0 = "updConn i (\<lambda>c. c\<lparr>onClose := False\<rparr>) s"
  let ?s1 = "upsertPresence w (presenceKey hello (connId (conns ?s0 ! i)))
               \<lparr>u_host = None, u_version = None, u_mode = None,
                u_reason = Some (Some ''disconnect''), u_instanceId = None,
                u_text = None\<rparr> ?s0"
  let ?s2 = "?s1\<lparr>presenceVersion := presenceVersion ?s1 + 1\<rparr>"
  let ?s3 = "snd (listSystemPresence w ?s2)"
  have c: "client (conns ?s0 ! i) = Some hello"
    using assms by (simp add: updConn_def)
  have "onSocketClose w i s
          = close i (broadcast ''presence'' (PresenceEvent (fst (listSystemPresence w ?s2))) True
                       (Some \<lparr>sv_presence = presenceVersion ?s3, sv_health = healthVersion ?s3\<rparr>)
                       ?s3)"
    unfolding onSocketClose_def Let_def c by (simp add: split_def)
  moreover have "conns ?s3 = (conns s)[i := (conns s ! i)\<lparr>onClose := False\<rparr>]"
    by (simp add: updConn_def)
  moreover have "clients ?s3 = clients s" "seq ?s3 = seq s"
    by simp_all
  ultimately show ?thesis by blast
qed

lemma socket_close_skips_slow:
  assumes "wellFormed s" and "j < length (conns s)" and "slow s j"
      and "i < length (conns s)" and "onClose (conns s ! i)" and "client (conns s ! i) \<noteq> None"
      and "i \<noteq> j"
  shows "conns (step w (SocketClose i) s) ! j = conns s ! j"
proof -
  obtain hello where h: "client (conns s ! i) = Some hello"
    using assms(6) by blast
  obtain pl sv t where t: "onSocketClose w i s = close i (broadcast ''presence'' pl True sv t)"
      "conns t = (conns s)[i := (conns s ! i)\<lparr>onClose := False\<rparr>]"
      "clients t = clients s" "seq t = seq s"
    using onSocketClose_registered[OF assms(4) h] by blast
  have d: "distinct (clients t)" using assms(1) t(3) by (simp add: wellFormed_def)
  have j: "j < length (conns t)" using assms(2) t(2) by simp
  have tj: "conns t ! j = conns s ! j" using assms(7) t(2) by simp
  have "step w (SocketClose i) s = onSocketClose w i s"
    using assms(4,5) by (simp add: step_def)
  then have "conns (step w (SocketClose i) s) ! j
               = conns (broadcast ''presence'' pl True sv t) ! j"
    unfolding t(1) using assms(7) by (simp add: conns_close_other)
  also have "\<dots> = conns s ! j"
    using assms(3) by (simp add: broadcast_conns[OF d j] tj delivered_def slow_def)
  finally show ?thesis .
qed

lemma agent_event_effect:
  assumes "wellFormed s" and "j < length (conns s)" and "registered s j" and "agentSub s"
  shows "ops (conns (step w (AgentEvent evt) s) ! j)
           = ops (conns s ! j)
             @ (if slow s j then [CloseCall 1008 (Some ''slow consumer'')]
                else [Sent (EventFrame ''agent'' (Opaque evt) (seq s + 1) None)])"
proof -
  have d: "distinct (clients s)" using assms(1) by (simp add: wellFormed_def)
  have "step w (AgentEvent evt) s = broadcast ''agent'' (Opaque evt) False None s"
    using assms(4) by (simp add: step_def)
  then show ?thesis
    using assms(3) by (simp add: broadcast_conns[OF d assms(2)] ops_delivered registered_def slow_def)
qed

text \<open>
  C3, as the code has it. A connection \<open>j\<close> is registered and slow: its socket buffers
  more than \<open>MAX_BUFFERED_BYTES\<close>. Both presence broadcasts of the server pass
  \<open>dropIfSlow: true\<close>, so both skip \<open>j\<close>: after an accepted \<open>system-event\<close> from any
  connection \<open>i\<close> (one whose text converts to a string that is not empty once trimmed)
  the socket of \<open>j\<close> has been sent nothing but, if \<open>j\<close> is the requester, the \<open>res\<close>, and
  has not been closed; after the closing of another registered
  connection \<open>i\<close> the connection \<open>j\<close> is as it was. A broadcast made without \<open>dropIfSlow\<close>,
  such as that of an agent event, calls \<open>close(1008, "slow consumer")\<close> on \<open>j\<close> and sends it
  nothing.
\<close>

theorem presence_broadcast_skips_slow_consumer:
  assumes "wellFormed s" and "j < length (conns s)" and "registered s j" and "slow s j"
  shows "(ready s i \<and> validateRequestFrame req \<and> strProp req ''method'' = ''system-event''
          \<and> systemEventText w (getProp req ''params'') = Some text \<and> text \<noteq> [] \<longrightarrow>
            ops (conns (step w (Message i (Parsed req)) s) ! j)
              = ops (conns s ! j)
                @ (if j = i
                   then [Sent (ResFrame (JStr (strProp req ''id'')) True (Some OkTrue) None)]
                   else []))
         \<and> (i < length (conns s) \<and> onClose (conns s ! i) \<and> client (conns s ! i) \<noteq> None
            \<and> i \<noteq> j \<longrightarrow>
              conns (step w (SocketClose i) s) ! j = conns s ! j)
         \<and> (agentSub s \<longrightarrow>
              ops (conns (step w (AgentEvent evt) s) ! j)
                = ops (conns s ! j) @ [CloseCall 1008 (Some ''slow consumer'')])"
proof (intro conjI impI)
  assume a: "ready s i \<and> validateRequestFrame req \<and> strProp req ''method'' = ''system-event''
          \<and> systemEventText w (getProp req ''params'') = Some text \<and> text \<noteq> []"
  show "ops (conns (step w (Message i (Parsed req)) s) ! j)
              = ops (conns s ! j)
                @ (if j = i
                   then [Sent (ResFrame (JStr (strProp req ''id'')) True (Some OkTrue) None)]
                   else [])"
    using system_event_effect(4)[of s i req w "text" _ j, OF _ assms(1) _ _ _ _ refl assms(2)] a assms(4)
    by simp
next
  assume "i < length (conns s) \<and> onClose (conns s ! i) \<and> client (conns s ! i) \<noteq> None \<and> i \<noteq> j"
  then show "conns (step w (SocketClose i) s) ! j = conns s ! j"
    using socket_close_skips_slow[OF assms(1,2,4)] by blast
next
  assume "agentSub s"
  then show "ops (conns (step w (AgentEvent evt) s) ! j)
                = ops (conns s ! j) @ [CloseCall 1008 (Some ''slow consumer'')]"
    using agent_event_effect[OF assms(1-3)] assms(4) by simp
qed

theorem presence_broadcast_skips_slow_consumer_witness:
  "wellFormed exSlow2 \<and> registered exSlow2 0 \<and> slow exSlow2 0 \<and> ready exSlow2 1
   \<and> ops (conns (step exWorld (Message 1 (Parsed (exSystemEvent ''e1'' ''note''))) exSlow2) ! 0)
       = ops (conns exSlow2 ! 0)
   \<and> conns (step exWorld (SocketClose 1) exSlow2) ! 0 = conns exSlow2 ! 0
   \<and> ops (conns (step exWorld (AgentEvent (JObj [])) exSlow2) ! 0)
       = ops (conns exSlow2 ! 0) @ [CloseCall 1008 (Some ''slow consumer'')]"
  using presence_broadcast_skips_slow_consumer[of exSlow2 0 1 "exSystemEvent ''e1'' ''note''"
          exWorld "''note''" "JObj []"]
  by (simp add: exSlow2_facts exSystemEvent_valid trim_examples)

text \<open>
  The only client has stopped reading and sends a \<open>system-event\<close>: the presence broadcast
  passes it over, no \<open>close\<close> is called on its socket, and it is sent its \<open>res\<close>.
\<close>

theorem slow_consumer_not_closed_by_presence:
  "registered exSlow 0 \<and> slow exSlow 0
   \<and> closeCalls (ops (conns (step exWorld (Message 0 (Parsed (exSystemEvent ''e1'' ''note'')))
                               exSlow) ! 0)) = []
   \<and> sentTypes (ops (conns (step exWorld (Message 0 (Parsed (exSystemEvent ''e1'' ''note'')))
                               exSlow) ! 0)) = [''hello-ok'', ''res'']"
  using system_event_effect(4)[of exSlow 0 "exSystemEvent ''e1'' ''note''" exWorld "''note''" _ 0]
  by (simp add: exSlow_facts exSystemEvent_valid trim_examples exReady_facts)

section \<open>The dedupe cache along a run\<close>

subsection \<open>Who writes the cache\<close>

lemma dedupe_presence [simp]:
  "dedupe (upsertPresence w k p s) = dedupe s"
  "dedupe (snd (listSystemPresence w s)) = dedupe s"
  "dedupe (snd (buildSnapshot w s)) = dedupe s"
  using core_eq_fields(4)[OF core_upsertPresence, of w k p s]
        core_eq_fields(4)[OF core_listSystemPresence, of w s]
        core_eq_fields(4)[OF core_buildSnapshot, of w s]
  by simp_all

lemma dedupe_catchHandler [simp]: "dedupe (catchHandler i err s) = dedupe s"
  by (simp add: catchHandler_def Let_def)

lemma dedupe_rejectHello [simp]: "dedupe (rejectHello i reason expected cd rs s) = dedupe s"
  by (simp add: rejectHello_def send_def)

lemma dedupe_handleHello [simp]: "dedupe (handleHello w i parsed s) = dedupe s"
  by (simp add: handleHello_def Let_def split_def)

lemma dedupe_handleSystemEvent [simp]: "dedupe (handleSystemEvent w i rid params s) = dedupe s"
  by (simp add: handleSystemEvent_def Let_def split_def split: option.splits)

lemma dedupe_handleSend [simp]: "dedupe (handleSend w i rid params s) = dedupe s"
  by (simp add: handleSend_def Let_def split: option.splits)

lemma dedupe_handleAgent [simp]: "dedupe (handleAgent w i rid params s) = dedupe s"
  by (simp add: handleAgent_def Let_def split_def randomUUID_def split: option.splits)

lemma dedupe_handleRequest [simp]: "dedupe (handleRequest w i parsed s) = dedupe s"
  by (simp add: handleRequest_def Let_def split_def send_def)

lemma dedupe_onMessage [simp]: "dedupe (onMessage w i data s) = dedupe s"
  by (simp add: onMessage_def split: parsed.splits)

lemma dedupe_onConnection [simp]: "dedupe (onConnection w s) = dedupe s"
  by (simp add: onConnection_def randomUUID_def)

lemma dedupe_onSocketClose [simp]: "dedupe (onSocketClose w i s) = dedupe s"
  by (simp add: onSocketClose_def Let_def split_def split: option.splits)

lemma dedupe_onSocketError [simp]: "dedupe (onSocketError i s) = dedupe s"
  by (simp add: onSocketError_def)

lemma dedupe_onHandshakeTimeout [simp]: "dedupe (onHandshakeTimeout i s) = dedupe s"
  by (simp add: onHandshakeTimeout_def Let_def)

lemma dedupe_onTick [simp]: "dedupe (onTick w s) = dedupe s"
  by (simp add: onTick_def Date_now_def)

lemma dedupe_fold_socketClose [simp]:
  "dedupe (fold (\<lambda>i. socketClose i cd rs) cs s) = dedupe s"
  by (induction cs arbitrary: s) simp_all

lemma dedupe_shutdown [simp]: "dedupe (shutdown s) = dedupe s"
  by (simp add: shutdown_def Let_def)






subsection \<open>A completion stores what it answers\<close>


subsection \<open>Replaying a cached outcome\<close>




subsection \<open>The examples: a completed delivery, and two overlapping ones\<close>








end
